theory Spec2Isabelle
  imports Complex_Main "HOL-Library.Log_Nat"
begin

section \<open>Values and errors of the Python program\<close>

text \<open>
  Every exception the module \<^verbatim>\<open>flexmeasures_weather/utils/weather.py\<close> can raise is a
  value. \<open>ExternalError\<close> stands for whatever an external collaborator raises (the HTTP
  adapters' failed assertion on a status other than 200, a failing registry lookup, a
  failing storage call).
\<close>

datatype error =
    KeyError string
  | TypeError
  | AttributeError
  | IndexError
  | OverflowError
  | ZeroDivisionError
  | UnboundLocalError string
  | InvalidProvider
  | ResolutionMismatch string rat rat
  | NothingProduced
  | ExternalError string

definition ebind :: "error + 'a \<Rightarrow> ('a \<Rightarrow> error + 'b) \<Rightarrow> error + 'b" where
  "ebind m f = (case m of Inl e \<Rightarrow> Inl e | Inr x \<Rightarrow> f x)"

text \<open>A list comprehension whose element expression may raise: the first failure wins.\<close>

fun map_err :: "('a \<Rightarrow> error + 'b) \<Rightarrow> 'a list \<Rightarrow> error + 'b list" where
  "map_err f [] = Inr []"
| "map_err f (x # xs) =
     (case f x of
        Inl e \<Rightarrow> Inl e
      | Inr y \<Rightarrow> (case map_err f xs of Inl e \<Rightarrow> Inl e | Inr ys \<Rightarrow> Inr (y # ys)))"

subsection \<open>Floating-point arithmetic\<close>

text \<open>
  A Python \<^verbatim>\<open>float\<close> is a binary64 value: a sign and a magnitude that is zero, subnormal
  or normal, an infinity with a sign, or NaN. In \<open>Finite s a\<close> the sign bit s is True for a
  negative value and a is the magnitude, a rational that is not negative.
\<close>

datatype double = Finite bool rat | Infinity bool | NaN

definition scale2 :: "rat \<Rightarrow> int \<Rightarrow> rat" where
  "scale2 x k = (if 0 \<le> k then x * 2 ^ nat k else x / 2 ^ nat (- k))"

definition round_half_even :: "rat \<Rightarrow> int" where
  "round_half_even x =
     (let f = \<lfloor>x\<rfloor>; d = x - of_int f
      in if d < 1 / 2 then f else if 1 / 2 < d then f + 1 else if even f then f else f + 1)"

text \<open>For a positive a, the integer e with \<open>2 ^ e \<le> a < 2 ^ (e + 1)\<close>.\<close>

definition binary_exponent :: "rat \<Rightarrow> int" where
  "binary_exponent a =
     (let (p, q) = quotient_of a; k = bitlen p - bitlen q
      in if scale2 1 k \<le> a then k else k - 1)"

text \<open>
  Rounding a positive magnitude to 53 bits, to the nearest value and at a tie to the even
  significand: the exponent e is that of the magnitude, and not less than -1022, where the
  subnormal numbers begin; the result is the significand m times \<open>2 ^ (e - 52)\<close>.
\<close>

definition significand_exponent :: "rat \<Rightarrow> int \<times> int" where
  "significand_exponent a =
     (let e = max (binary_exponent a) (- 1022)
      in (round_half_even (scale2 a (52 - e)), e))"

text \<open>
  The double nearest to a magnitude, with the sign given. A result of \<open>2 ^ 1024\<close> or more
  is an infinity.
\<close>

definition round_to_double :: "bool \<Rightarrow> rat \<Rightarrow> double" where
  "round_to_double s a =
     (if a = 0 then Finite s 0
      else let (m, e) = significand_exponent a
           in if 1023 < e \<or> (e = 1023 \<and> 2 ^ 53 \<le> m) then Infinity s
              else Finite s (scale2 (of_int m) (e - 52)))"

text \<open>A float literal written as the decimal c.\<close>

definition float_literal :: "rat \<Rightarrow> double" where
  "float_literal c = round_to_double (c < 0) \<bar>c\<bar>"

text \<open>\<^verbatim>\<open>float(i)\<close> for an int: an int beyond the range of the doubles raises.\<close>

definition int_to_float :: "int \<Rightarrow> error + double" where
  "int_to_float i =
     (case round_to_double (i < 0) (of_int \<bar>i\<bar>) of
        Infinity s \<Rightarrow> Inl OverflowError
      | x \<Rightarrow> Inr x)"

text \<open>\<^verbatim>\<open>x * y\<close> on floats: an overflow gives an infinity, no exception.\<close>

fun float_mul :: "double \<Rightarrow> double \<Rightarrow> double" where
  "float_mul (Finite s a) (Finite t b) = round_to_double (s \<noteq> t) (a * b)"
| "float_mul (Finite s a) (Infinity t) = (if a = 0 then NaN else Infinity (s \<noteq> t))"
| "float_mul (Infinity s) (Finite t b) = (if b = 0 then NaN else Infinity (s \<noteq> t))"
| "float_mul (Infinity s) (Infinity t) = Infinity (s \<noteq> t)"
| "float_mul _ _ = NaN"

text \<open>\<^verbatim>\<open>x / y\<close> on floats: only a zero divisor raises.\<close>

fun float_truediv :: "double \<Rightarrow> double \<Rightarrow> error + double" where
  "float_truediv x (Finite t b) =
     (if b = 0 then Inl ZeroDivisionError
      else case x of
        Finite s a \<Rightarrow> Inr (round_to_double (s \<noteq> t) (a / b))
      | Infinity s \<Rightarrow> Inr (Infinity (s \<noteq> t))
      | NaN \<Rightarrow> Inr NaN)"
| "float_truediv (Finite s a) (Infinity t) = Inr (Finite (s \<noteq> t) 0)"
| "float_truediv _ _ = Inr NaN"

text \<open>
  \<^verbatim>\<open>x + y\<close> on floats. A sum that is exactly zero is the negative zero only when both
  summands are negative zeros.
\<close>

fun float_add :: "double \<Rightarrow> double \<Rightarrow> double" where
  "float_add (Finite s a) (Finite t b) =
     (let v = (if s then - a else a) + (if t then - b else b)
      in if v = 0 then Finite (s \<and> t) 0 else round_to_double (v < 0) \<bar>v\<bar>)"
| "float_add (Finite s a) (Infinity t) = Infinity t"
| "float_add (Infinity s) (Finite t b) = Infinity s"
| "float_add (Infinity s) (Infinity t) = (if s = t then Infinity s else NaN)"
| "float_add _ _ = NaN"

subsection \<open>Decoded JSON\<close>

text \<open>
  The module works on decoded JSON: nested dictionaries and lists of numbers and strings.
  A JSON number is a Python \<^verbatim>\<open>int\<close>, an integer without bound, or a \<^verbatim>\<open>float\<close>; the
  decoder also yields the infinities and NaN. A Python \<^verbatim>\<open>str\<close> is the list of its
  Unicode code points. A dictionary is an association list read with \<open>map_of\<close>; the
  module reads dictionaries only at the keys it writes out, which are ASCII.
\<close>

type_synonym pystr = "nat list"

datatype jval =
    JNull
  | JBool bool
  | JInt int
  | JFloat double
  | JStr pystr
  | JList "jval list"
  | JObj "(string \<times> jval) list"

text \<open>The \<^verbatim>\<open>str\<close> of an ASCII literal.\<close>

definition str_of :: "string \<Rightarrow> pystr" where
  "str_of s = map of_char s"

subsection \<open>Python arithmetic on numbers\<close>

datatype number = PyInt int | PyFloat double

text \<open>\<^verbatim>\<open>True\<close> and \<^verbatim>\<open>False\<close> are the integers 1 and 0 in arithmetic.\<close>

fun as_number :: "jval \<Rightarrow> number option" where
  "as_number (JInt i) = Some (PyInt i)"
| "as_number (JFloat x) = Some (PyFloat x)"
| "as_number (JBool b) = Some (PyInt (if b then 1 else 0))"
| "as_number _ = None"

fun jval_of :: "number \<Rightarrow> jval" where
  "jval_of (PyInt i) = JInt i"
| "jval_of (PyFloat x) = JFloat x"

text \<open>The float operand that an arithmetic operation with a float makes of a number.\<close>

fun to_float :: "number \<Rightarrow> error + double" where
  "to_float (PyInt i) = int_to_float i"
| "to_float (PyFloat x) = Inr x"

text \<open>\<^verbatim>\<open>n * k\<close> for an integer literal k: exact on an int, a float product on a float.\<close>

fun mul_int :: "number \<Rightarrow> int \<Rightarrow> error + number" where
  "mul_int (PyInt i) k = Inr (PyInt (i * k))"
| "mul_int (PyFloat x) k = ebind (int_to_float k) (\<lambda>y. Inr (PyFloat (float_mul x y)))"

text \<open>\<^verbatim>\<open>n / c\<close> for a float literal written as the decimal c.\<close>

definition truediv_float :: "number \<Rightarrow> rat \<Rightarrow> error + double" where
  "truediv_float n c = ebind (to_float n) (\<lambda>x. float_truediv x (float_literal c))"

text \<open>
  \<^verbatim>\<open>n / k\<close> for an integer literal k. The quotient of two ints is the exact quotient
  rounded once, and raises when it is beyond the range of the doubles; a float is divided by
  the float of k.
\<close>

fun truediv_int :: "number \<Rightarrow> int \<Rightarrow> error + double" where
  "truediv_int (PyInt i) k =
     (if k = 0 then Inl ZeroDivisionError
      else case round_to_double ((i < 0) \<noteq> (k < 0)) (of_int \<bar>i\<bar> / of_int \<bar>k\<bar>) of
        Infinity s \<Rightarrow> Inl OverflowError
      | x \<Rightarrow> Inr x)"
| "truediv_int (PyFloat x) k = ebind (int_to_float k) (float_truediv x)"

text \<open>\<^verbatim>\<open>a + b\<close> on numbers: exact on two ints, a float sum otherwise.\<close>

fun add_numbers :: "number \<Rightarrow> number \<Rightarrow> error + number" where
  "add_numbers (PyInt i) (PyInt j) = Inr (PyInt (i + j))"
| "add_numbers a b =
     ebind (to_float a) (\<lambda>x. ebind (to_float b) (\<lambda>y. Inr (PyFloat (float_add x y))))"

subsection \<open>Python primitives used by the module\<close>

text \<open>\<^verbatim>\<open>v[k]\<close> with a string key: only a dictionary accepts it.\<close>

fun subscript_key :: "jval \<Rightarrow> string \<Rightarrow> error + jval" where
  "subscript_key (JObj kvs) k =
     (case map_of kvs k of None \<Rightarrow> Inl (KeyError k) | Some v \<Rightarrow> Inr v)"
| "subscript_key _ k = Inl TypeError"

text \<open>\<^verbatim>\<open>xs[i]\<close> with a literal index that is not negative.\<close>

definition py_index :: "'a list \<Rightarrow> nat \<Rightarrow> error + 'a" where
  "py_index xs i = (if i < length xs then Inr (xs ! i) else Inl IndexError)"

text \<open>\<^verbatim>\<open>v * n\<close> for a literal integer n: numbers multiply, strings and lists repeat.\<close>

fun py_mul_int :: "jval \<Rightarrow> nat \<Rightarrow> error + jval" where
  "py_mul_int (JStr s) n = Inr (JStr (concat (replicate n s)))"
| "py_mul_int (JList xs) n = Inr (JList (concat (replicate n xs)))"
| "py_mul_int v n =
     (case as_number v of
        None \<Rightarrow> Inl TypeError
      | Some x \<Rightarrow> ebind (mul_int x (int n)) (\<lambda>y. Inr (jval_of y)))"

text \<open>
  \<^verbatim>\<open>v / c\<close> for a float literal c and \<^verbatim>\<open>v / k\<close> for an integer literal k: only
  numbers divide, and the result is a float.
\<close>

definition py_truediv_float :: "jval \<Rightarrow> rat \<Rightarrow> error + jval" where
  "py_truediv_float v c =
     (case as_number v of
        None \<Rightarrow> Inl TypeError
      | Some x \<Rightarrow> ebind (truediv_float x c) (\<lambda>y. Inr (JFloat y)))"

definition py_truediv_int :: "jval \<Rightarrow> int \<Rightarrow> error + jval" where
  "py_truediv_int v k =
     (case as_number v of
        None \<Rightarrow> Inl TypeError
      | Some x \<Rightarrow> ebind (truediv_int x k) (\<lambda>y. Inr (JFloat y)))"

text \<open>\<^verbatim>\<open>a + b\<close>: numbers add, two strings or two lists concatenate.\<close>

fun py_add :: "jval \<Rightarrow> jval \<Rightarrow> error + jval" where
  "py_add (JList xs) (JList ys) = Inr (JList (xs @ ys))"
| "py_add (JStr s) (JStr t) = Inr (JStr (s @ t))"
| "py_add a b =
     (case (as_number a, as_number b) of
        (Some x, Some y) \<Rightarrow> ebind (add_numbers x y) (\<lambda>z. Inr (jval_of z))
      | _ \<Rightarrow> Inl TypeError)"

text \<open>
  \<^verbatim>\<open>xs[i:j]\<close>: a negative bound counts from the end, and both bounds are clamped to
  the sequence, so a slice never raises on a list.
\<close>

definition py_slice :: "'a list \<Rightarrow> int \<Rightarrow> int \<Rightarrow> 'a list" where
  "py_slice xs i j =
     (let n = int (length xs);
          a = (if i < 0 then max (i + n) 0 else min i n);
          b = (if j < 0 then max (j + n) 0 else min j n)
      in take (nat (b - a)) (drop (nat a) xs))"

text \<open>
  The elements a \<^verbatim>\<open>for\<close> loop sees in \<^verbatim>\<open>v[i:j]\<close>: the entries of a list slice, the
  one-character strings of a string slice; nothing else can be sliced.
\<close>

fun slice_elements :: "jval \<Rightarrow> int \<Rightarrow> int \<Rightarrow> error + jval list" where
  "slice_elements (JList xs) i j = Inr (py_slice xs i j)"
| "slice_elements (JStr s) i j = Inr (map (\<lambda>c. JStr [c]) (py_slice s i j))"
| "slice_elements _ i j = Inl TypeError"

text \<open>
  \<^verbatim>\<open>str.split()\<close> without arguments: the maximal runs of characters that are not
  whitespace. The whitespace of Python is these code points: the ASCII controls 9 to 13 and
  28 to 31, the space, U+0085, U+00A0, U+1680, U+2000 to U+200A, U+2028, U+2029, U+202F,
  U+205F and U+3000.
\<close>

definition is_space :: "nat \<Rightarrow> bool" where
  "is_space c =
     ((9 \<le> c \<and> c \<le> 13) \<or> (28 \<le> c \<and> c \<le> 32) \<or> c = 133 \<or> c = 160 \<or> c = 5760 \<or>
      (8192 \<le> c \<and> c \<le> 8202) \<or> c = 8232 \<or> c = 8233 \<or> c = 8239 \<or> c = 8287 \<or>
      c = 12288)"

fun split_acc :: "pystr \<Rightarrow> pystr \<Rightarrow> pystr list" where
  "split_acc cur [] = (if cur = [] then [] else [rev cur])"
| "split_acc cur (c # cs) =
     (if is_space c
      then (if cur = [] then split_acc [] cs else rev cur # split_acc [] cs)
      else split_acc (c # cur) cs)"

definition split :: "pystr \<Rightarrow> pystr list" where
  "split s = split_acc [] s"

text \<open>\<^verbatim>\<open>v.split()[0]\<close>: only a string has the method, and no word means no index 0.\<close>

fun split_first :: "jval \<Rightarrow> error + jval" where
  "split_first (JStr s) = (case split s of [] \<Rightarrow> Inl IndexError | w # _ \<Rightarrow> Inr (JStr w))"
| "split_first _ = Inl AttributeError"

section \<open>The WeatherAPI normalizer\<close>

text \<open>\<^verbatim>\<open>weather_api_data["condition"][k]\<close>\<close>

definition condition_field :: "jval \<Rightarrow> string \<Rightarrow> error + jval" where
  "condition_field d k = ebind (subscript_key d ''condition'') (\<lambda>c. subscript_key c k)"

text \<open>
  The inner function \<^verbatim>\<open>map_weather_api_to_owm\<close>. The dictionary display evaluates its
  values in the order written, so the first missing or ill-typed field decides the
  exception.
\<close>

definition map_weather_api_to_owm :: "jval \<Rightarrow> error + jval" where
  "map_weather_api_to_owm weather_api_data =
     ebind (subscript_key weather_api_data ''time_epoch'') (\<lambda>dt.
     ebind (subscript_key weather_api_data ''temp_c'') (\<lambda>temp.
     ebind (subscript_key weather_api_data ''feelslike_c'') (\<lambda>feels_like.
     ebind (subscript_key weather_api_data ''pressure_mb'') (\<lambda>pressure.
     ebind (subscript_key weather_api_data ''humidity'') (\<lambda>humidity.
     ebind (subscript_key weather_api_data ''dewpoint_c'') (\<lambda>dew_point.
     ebind (subscript_key weather_api_data ''uv'') (\<lambda>uvi.
     ebind (subscript_key weather_api_data ''cloud'') (\<lambda>clouds.
     ebind (ebind (subscript_key weather_api_data ''vis_km'') (\<lambda>v. py_mul_int v 1000)) (\<lambda>visibility.
     ebind (ebind (subscript_key weather_api_data ''wind_kph'') (\<lambda>v. py_truediv_float v 3.6)) (\<lambda>wind_speed.
     ebind (subscript_key weather_api_data ''wind_degree'') (\<lambda>wind_deg.
     ebind (ebind (subscript_key weather_api_data ''gust_kph'') (\<lambda>v. py_truediv_float v 3.6)) (\<lambda>wind_gust.
     ebind (condition_field weather_api_data ''code'') (\<lambda>code.
     ebind (ebind (condition_field weather_api_data ''text'') split_first) (\<lambda>main.
     ebind (condition_field weather_api_data ''text'') (\<lambda>description.
     ebind (condition_field weather_api_data ''icon'') (\<lambda>icon.
     ebind (ebind (subscript_key weather_api_data ''chance_of_rain'') (\<lambda>v. py_truediv_int v 100)) (\<lambda>pop.
     Inr (JObj
       [(''dt'', dt),
        (''temp'', temp),
        (''feels_like'', feels_like),
        (''pressure'', pressure),
        (''humidity'', humidity),
        (''dew_point'', dew_point),
        (''uvi'', uvi),
        (''clouds'', clouds),
        (''visibility'', visibility),
        (''wind_speed'', wind_speed),
        (''wind_deg'', wind_deg),
        (''wind_gust'', wind_gust),
        (''weather'', JList [JObj
           [(''id'', code),
            (''main'', main),
            (''description'', description),
            (''icon'', icon)]]),
        (''pop'', pop)]))))))))))))))))))"

text \<open>
  \<^verbatim>\<open>process_weatherapi_data(data, hour_no)\<close>: the three days' \<^verbatim>\<open>"hour"\<close> values are
  added, the window \<^verbatim>\<open>[hour_no : hour_no + 48]\<close> is cut out and each element of it is
  mapped.
\<close>

definition process_weatherapi_data :: "jval list \<Rightarrow> int \<Rightarrow> error + jval list" where
  "process_weatherapi_data data hour_no =
     ebind (ebind (py_index data 0) (\<lambda>d. subscript_key d ''hour'')) (\<lambda>first_day.
     ebind (ebind (py_index data 1) (\<lambda>d. subscript_key d ''hour'')) (\<lambda>second_day.
     ebind (ebind (py_index data 2) (\<lambda>d. subscript_key d ''hour'')) (\<lambda>third_day.
     ebind (ebind (py_add first_day second_day) (\<lambda>s. py_add s third_day)) (\<lambda>combined.
     ebind (slice_elements combined hour_no (hour_no + 48)) (\<lambda>relevant.
     map_err map_weather_api_to_owm relevant)))))"

text \<open>An expression is accepted when its evaluation raises nothing.\<close>

definition accepted :: "error + 'a \<Rightarrow> bool" where
  "accepted r = (case r of Inl _ \<Rightarrow> False | Inr _ \<Rightarrow> True)"

text \<open>
  A condition for the mapper to accept an hourly entry, field by field in the order the
  mapper reads them: a dictionary with the seventeen fields read, a visibility that can be
  multiplied by 1000, a wind speed, a gust and a chance of rain that can be divided (numbers
  that are not beyond the range of the floats), and a condition text that has a word.
\<close>

definition has_key :: "jval \<Rightarrow> string \<Rightarrow> bool" where
  "has_key d k = accepted (subscript_key d k)"

definition has_words :: "jval \<Rightarrow> bool" where
  "has_words d =
     (case condition_field d ''text'' of
        Inr (JStr t) \<Rightarrow> split t \<noteq> []
      | _ \<Rightarrow> False)"

definition fields_before_text :: "jval \<Rightarrow> bool" where
  "fields_before_text d =
     (has_key d ''time_epoch'' \<and> has_key d ''temp_c'' \<and> has_key d ''feelslike_c'' \<and>
      has_key d ''pressure_mb'' \<and> has_key d ''humidity'' \<and> has_key d ''dewpoint_c'' \<and>
      has_key d ''uv'' \<and> has_key d ''cloud'' \<and>
      accepted (ebind (subscript_key d ''vis_km'') (\<lambda>v. py_mul_int v 1000)) \<and>
      accepted (ebind (subscript_key d ''wind_kph'') (\<lambda>v. py_truediv_float v 3.6)) \<and>
      has_key d ''wind_degree'' \<and>
      accepted (ebind (subscript_key d ''gust_kph'') (\<lambda>v. py_truediv_float v 3.6)) \<and>
      accepted (condition_field d ''code''))"

definition wf_hour :: "jval \<Rightarrow> bool" where
  "wf_hour d =
     (fields_before_text d \<and> has_words d \<and>
      accepted (condition_field d ''icon'') \<and>
      accepted (ebind (subscript_key d ''chance_of_rain'') (\<lambda>v. py_truediv_int v 100)))"

text \<open>An entry that the mapper reads up to the condition text, which has no word.\<close>

definition blank_text_hour :: "jval \<Rightarrow> bool" where
  "blank_text_hour d =
     (fields_before_text d \<and>
      (case condition_field d ''text'' of
         Inr (JStr t) \<Rightarrow> split t = []
       | _ \<Rightarrow> False))"

section \<open>The forecast assembler\<close>

subsection \<open>Data\<close>

type_synonym time = rat
type_synonym location = "rat \<times> rat"
type_synonym forecast = "(string \<times> jval) list"

text \<open>
  Modelled from the spec: the table \<^verbatim>\<open>mapping\<close> of the module \<^verbatim>\<open>sensor_specs\<close>
  is imported by the source and not part of it. An entry has a name, the expected units, the
  provider-field label and the expected event resolution; the table itself is a parameter
  of the model.
\<close>

record sensor_spec =
  fm_sensor_name :: string
  weather_sensor_name :: string
  spec_unit :: string
  event_resolution :: rat

text \<open>A registered sensor of the host platform, as far as the module reads it.\<close>

record sensor =
  sensor_id :: nat
  sensor_name :: string
  sensor_event_resolution :: rat

datatype data_source = DataSource string

record timed_belief =
  event_start :: time
  belief_time :: time
  event_value :: jval
  belief_sensor :: sensor
  source :: data_source

text \<open>
  What the run prints and logs, and the calls it makes to the dispatcher, the registry and
  the storage, each with what the call returned or raised.
\<close>

datatype message =
    GettingForecasts
  | LatLonHeader
  | Separator
  | LocationLine location
  | CallingProvider string
  | ClockDifference rat
  | CalledApi time
  | ProcessingForecast time
  | FoundSensor string
  | NoLabel string time
  | SavingForecasts string
  | AlreadySaved
  | SomeAlreadySaved

datatype event =
    Echo message
  | LoggerWarning message
  | LoggerInfo message
  | CallApi location "error + time \<times> forecast list"
  | FindSensor location rat string "error + sensor option"
  | CheckResolution sensor_spec "sensor option"
  | SaveToDb "timed_belief list" "error + string"

text \<open>
  The external collaborators and the configuration. Those that read or change the world
  outside the program (the clock, the providers, the registry, the storage) take the world
  and return it.
\<close>

record 'w env =
  mapping :: "sensor_spec list"
  weather_provider :: string
  max_degree_difference :: rat
  server_now :: "'w \<Rightarrow> time \<times> 'w"
  call_openweatherapi :: "string \<Rightarrow> location \<Rightarrow> 'w \<Rightarrow> (error + time \<times> forecast list) \<times> 'w"
  call_weatherapi :: "string \<Rightarrow> location \<Rightarrow> 'w \<Rightarrow> (error + time \<times> forecast list) \<times> 'w"
  fromtimestamp :: "jval \<Rightarrow> error + time"
  find_weather_sensor_by_location ::
    "location \<Rightarrow> rat \<Rightarrow> string \<Rightarrow> 'w \<Rightarrow> (error + sensor option) \<times> 'w"
  get_or_create_owm_data_source :: "'w \<Rightarrow> data_source \<times> 'w"
  get_or_create_owm_data_source_for_derived_data :: "'w \<Rightarrow> data_source \<times> 'w"
  compute_irradiance :: "rat \<Rightarrow> rat \<Rightarrow> time \<Rightarrow> double \<Rightarrow> error + jval"
  save_to_db :: "timed_belief list \<Rightarrow> 'w \<Rightarrow> (error + string) \<times> 'w"

text \<open>
  The variables of one iteration of the loop over the locations: the cache
  \<^verbatim>\<open>weather_sensors\<close> (a name may be cached with the value \<^verbatim>\<open>None\<close>), the batches
  \<^verbatim>\<open>db_forecasts\<close> in insertion order, and \<^verbatim>\<open>data_source\<close>, unbound until the first
  forecast hour assigns it.
\<close>

record 'w state =
  world :: 'w
  log :: "event list"
  weather_sensors :: "string \<rightharpoonup> sensor option"
  db_forecasts :: "(sensor \<times> timed_belief list) list"
  data_source :: "data_source option"

text \<open>
  What is left between the iterations and after the loop: \<^verbatim>\<open>db_forecasts\<close> is unbound
  until an iteration has assigned it.
\<close>

record 'w run_state =
  rworld :: 'w
  rlog :: "event list"
  rdb :: "(sensor \<times> timed_belief list) list option"

definition emit :: "event \<Rightarrow> 'w state \<Rightarrow> 'w state" where
  "emit e s = s\<lparr>log := log s @ [e]\<rparr>"

definition remit :: "event \<Rightarrow> 'w run_state \<Rightarrow> 'w run_state" where
  "remit e rs = rs\<lparr>rlog := rlog rs @ [e]\<rparr>"

text \<open>A \<^verbatim>\<open>for\<close> loop whose body may raise: the exception ends the loop.\<close>

fun for_each :: "('a \<Rightarrow> 's \<Rightarrow> (error + unit) \<times> 's) \<Rightarrow> 'a list \<Rightarrow> 's \<Rightarrow> (error + unit) \<times> 's" where
  "for_each body [] s = (Inr (), s)"
| "for_each body (x # xs) s =
     (case body x s of
        (Inl e, s') \<Rightarrow> (Inl e, s')
      | (Inr _, s') \<Rightarrow> for_each body xs s')"

subsection \<open>The dispatcher\<close>

definition call_api ::
  "'w env \<Rightarrow> string \<Rightarrow> location \<Rightarrow> 'w state \<Rightarrow> (error + time \<times> forecast list) \<times> 'w state" where
  "call_api env api_key location s =
     (let provider = weather_provider env in
      if provider \<notin> {''OWM'', ''WAPI''} then (Inl InvalidProvider, s)
      else if provider = ''OWM'' then
        (let s1 = emit (Echo (CallingProvider ''OWM'')) s;
             (r, w) = call_openweatherapi env api_key location (world s1)
         in (r, s1\<lparr>world := w\<rparr>))
      else
        (let s1 = emit (Echo (CallingProvider ''WAPI'')) s;
             (r, w) = call_weatherapi env api_key location (world s1)
         in (r, s1\<lparr>world := w\<rparr>)))"

subsection \<open>The sensor resolver\<close>

text \<open>
  The check at the end of \<^verbatim>\<open>get_weather_sensor\<close>: it compares the resolution of the
  sensor, when there is one, with that of the table entry, and raises when they differ.
\<close>

definition check_resolution :: "sensor_spec \<Rightarrow> sensor option \<Rightarrow> error + sensor option" where
  "check_resolution sensor_specs weather_sensor =
     (case weather_sensor of
        None \<Rightarrow> Inr None
      | Some ws \<Rightarrow>
          if sensor_event_resolution ws \<noteq> event_resolution sensor_specs
          then Inl (ResolutionMismatch (fm_sensor_name sensor_specs)
                      (event_resolution sensor_specs) (sensor_event_resolution ws))
          else Inr (Some ws))"

text \<open>
  \<^verbatim>\<open>get_weather_sensor\<close>: the cache \<^verbatim>\<open>weather_sensors\<close> is read at the name of the
  table entry, and the registry is asked only for a name that is not a key of it. The check
  is made on both paths, with the table entry of this call. The trace records each call of
  the registry and, as \<open>CheckResolution\<close>, each time the check is reached, with the table
  entry and the sensor it compares.
\<close>

definition get_weather_sensor ::
  "'w env \<Rightarrow> sensor_spec \<Rightarrow> location \<Rightarrow> rat \<Rightarrow> 'w state \<Rightarrow> (error + sensor option) \<times> 'w state" where
  "get_weather_sensor env sensor_specs location max_degree s =
     (let name = fm_sensor_name sensor_specs in
      case weather_sensors s name of
        Some weather_sensor \<Rightarrow>
          (check_resolution sensor_specs weather_sensor,
           emit (CheckResolution sensor_specs weather_sensor) s)
      | None \<Rightarrow>
          (case find_weather_sensor_by_location env location max_degree name (world s) of
             (Inl e, w) \<Rightarrow>
               (Inl e, emit (FindSensor location max_degree name (Inl e)) (s\<lparr>world := w\<rparr>))
           | (Inr weather_sensor, w) \<Rightarrow>
               (check_resolution sensor_specs weather_sensor,
                emit (CheckResolution sensor_specs weather_sensor)
                  (emit (FindSensor location max_degree name (Inr weather_sensor))
                     (s\<lparr>world := w,
                        weather_sensors := (weather_sensors s)(name \<mapsto> weather_sensor)\<rparr>)))))"

subsection \<open>The loops of \<^verbatim>\<open>save_forecasts_in_db\<close>\<close>

text \<open>
  \<^verbatim>\<open>if weather_sensor not in db_forecasts.keys(): db_forecasts[weather_sensor] = []\<close>
\<close>

definition db_setdefault ::
  "sensor \<Rightarrow> (sensor \<times> timed_belief list) list \<Rightarrow> (sensor \<times> timed_belief list) list" where
  "db_setdefault k db = (if map_of db k = None then db @ [(k, [])] else db)"

text \<open>\<^verbatim>\<open>db_forecasts[weather_sensor].append(belief)\<close>, the key being present.\<close>

fun db_append ::
  "sensor \<Rightarrow> timed_belief \<Rightarrow> (sensor \<times> timed_belief list) list \<Rightarrow> (sensor \<times> timed_belief list) list" where
  "db_append k b [] = []"
| "db_append k b ((k', bs) # db) =
     (if k' = k then (k', bs @ [b]) # db else (k', bs) # db_append k b db)"

definition store_belief ::
  "time \<Rightarrow> time \<Rightarrow> sensor \<Rightarrow> jval \<Rightarrow> 'w state \<Rightarrow> (error + unit) \<times> 'w state" where
  "store_belief now fc_datetime weather_sensor fc_value s =
     (case data_source s of
        None \<Rightarrow> (Inl (UnboundLocalError ''data_source''), s)
      | Some src \<Rightarrow>
          (Inr (),
           s\<lparr>db_forecasts :=
               db_append weather_sensor
                 \<lparr>event_start = fc_datetime, belief_time = now, event_value = fc_value,
                  belief_sensor = weather_sensor, source = src\<rparr>
                 (db_forecasts s)\<rparr>))"

text \<open>The body of the loop over \<^verbatim>\<open>mapping\<close>, for one forecast hour \<^verbatim>\<open>fc\<close>.\<close>

definition process_sensor_specs ::
  "'w env \<Rightarrow> location \<Rightarrow> rat \<Rightarrow> time \<Rightarrow> forecast \<Rightarrow> time \<Rightarrow> sensor_spec \<Rightarrow> 'w state
     \<Rightarrow> (error + unit) \<times> 'w state" where
  "process_sensor_specs env location max_degree now fc fc_datetime sensor_specs s =
     (let name = fm_sensor_name sensor_specs;
          owm_response_label = weather_sensor_name sensor_specs in
      case map_of fc owm_response_label of
        None \<Rightarrow>
          (Inr (),
           emit (LoggerWarning (NoLabel owm_response_label fc_datetime))
             (emit (Echo (NoLabel owm_response_label fc_datetime)) s))
      | Some fc_value \<Rightarrow>
          (case get_weather_sensor env sensor_specs location max_degree s of
             (Inl e, s1) \<Rightarrow> (Inl e, s1)
           | (Inr None, s1) \<Rightarrow> (Inr (), s1)
           | (Inr (Some weather_sensor), s1) \<Rightarrow>
               (let s2 = emit (Echo (FoundSensor (sensor_name weather_sensor))) s1;
                    s3 = s2\<lparr>db_forecasts := db_setdefault weather_sensor (db_forecasts s2)\<rparr>
                in if name = ''irradiance'' then
                     (case as_number fc_value of
                        None \<Rightarrow> (Inl TypeError, s3)
                      | Some cloud_cover \<Rightarrow>
                          (case ebind (truediv_float cloud_cover 100)
                                  (compute_irradiance env (fst location) (snd location)
                                     fc_datetime) of
                             Inl e \<Rightarrow> (Inl e, s3)
                           | Inr irradiance \<Rightarrow>
                               (let (src, w) =
                                      get_or_create_owm_data_source_for_derived_data env (world s3);
                                    s4 = s3\<lparr>world := w, data_source := Some src\<rparr>
                                in store_belief now fc_datetime weather_sensor irradiance s4)))
                   else store_belief now fc_datetime weather_sensor fc_value s3)))"

text \<open>The body of the loop over the forecast hours of one location.\<close>

definition process_forecast ::
  "'w env \<Rightarrow> location \<Rightarrow> rat \<Rightarrow> time \<Rightarrow> forecast \<Rightarrow> 'w state \<Rightarrow> (error + unit) \<times> 'w state" where
  "process_forecast env location max_degree now fc s =
     (case ebind (case map_of fc ''dt'' of None \<Rightarrow> Inl (KeyError ''dt'') | Some v \<Rightarrow> Inr v)
             (fromtimestamp env) of
        Inl e \<Rightarrow> (Inl e, s)
      | Inr fc_datetime \<Rightarrow>
          (let s1 = emit (Echo (ProcessingForecast fc_datetime)) s;
               (src, w) = get_or_create_owm_data_source env (world s1);
               s2 = s1\<lparr>world := w, data_source := Some src\<rparr>
           in for_each (process_sensor_specs env location max_degree now fc fc_datetime)
                (mapping env) s2))"

definition leave_location :: "'w state \<Rightarrow> 'w run_state" where
  "leave_location s = \<lparr>rworld = world s, rlog = log s, rdb = Some (db_forecasts s)\<rparr>"

text \<open>The body of the loop over the locations.\<close>

definition process_location ::
  "'w env \<Rightarrow> string \<Rightarrow> rat \<Rightarrow> location \<Rightarrow> 'w run_state \<Rightarrow> (error + unit) \<times> 'w run_state" where
  "process_location env api_key max_degree location rs =
     (let s0 = \<lparr>world = rworld rs, log = rlog rs @ [Echo (LocationLine location)],
                weather_sensors = Map.empty, db_forecasts = [], data_source = None\<rparr>;
          (now, w) = server_now env (world s0);
          s1 = s0\<lparr>world := w\<rparr>
      in case call_api env api_key location s1 of
           (Inl e, s2) \<Rightarrow> (Inl e, leave_location (emit (CallApi location (Inl e)) s2))
         | (Inr (time_of_api_call, forecasts), s2') \<Rightarrow>
             (let s2 = emit (CallApi location (Inr (time_of_api_call, forecasts))) s2';
                  diff_fm_owm = now - time_of_api_call;
                  s3 = (if \<bar>diff_fm_owm\<bar> > 600
                        then emit (Echo (ClockDifference diff_fm_owm)) s2 else s2);
                  s4 = emit (Echo (CalledApi now)) s3;
                  (r, s5) = for_each (process_forecast env location max_degree now) forecasts s4
              in (r, leave_location s5)))"

text \<open>
  The body of the loop over \<^verbatim>\<open>db_forecasts.keys()\<close>. The keys of \<^verbatim>\<open>db_forecasts\<close> are
  distinct, so the loop runs over the pairs of the association list.
\<close>

definition save_sensor_forecasts ::
  "'w env \<Rightarrow> sensor \<times> timed_belief list \<Rightarrow> 'w run_state \<Rightarrow> (error + unit) \<times> 'w run_state" where
  "save_sensor_forecasts env kv rs =
     (let rs1 = remit (Echo (SavingForecasts (sensor_name (fst kv)))) rs in
      if length (snd kv) = 0 then (Inl NothingProduced, rs1)
      else
        (case save_to_db env (snd kv) (rworld rs1) of
           (Inl e, w) \<Rightarrow> (Inl e, remit (SaveToDb (snd kv) (Inl e)) (rs1\<lparr>rworld := w\<rparr>))
         | (Inr status, w) \<Rightarrow>
             (let rs2 = remit (SaveToDb (snd kv) (Inr status)) (rs1\<lparr>rworld := w\<rparr>) in
              (Inr (),
               if status = ''success_but_nothing_new'' then remit (LoggerInfo AlreadySaved) rs2
               else if status = ''success_with_unchanged_beliefs_skipped''
               then remit (LoggerInfo SomeAlreadySaved) rs2
               else rs2))))"

text \<open>
  \<^verbatim>\<open>save_forecasts_in_db\<close>: the loop that saves stands after the loop over the
  locations, and reads the \<^verbatim>\<open>db_forecasts\<close> that the last iteration left.
\<close>

definition save_forecasts_in_db ::
  "'w env \<Rightarrow> string \<Rightarrow> location list \<Rightarrow> 'w \<Rightarrow> (error + unit) \<times> 'w run_state" where
  "save_forecasts_in_db env api_key locations w =
     (let rs0 = \<lparr>rworld = w,
                 rlog = [Echo GettingForecasts, Echo LatLonHeader, Echo Separator],
                 rdb = None\<rparr>;
          max_degree = max_degree_difference env
      in case for_each (process_location env api_key max_degree) locations rs0 of
           (Inl e, rs1) \<Rightarrow> (Inl e, rs1)
         | (Inr _, rs1) \<Rightarrow>
             (case rdb rs1 of
                None \<Rightarrow> (Inl (UnboundLocalError ''db_forecasts''), rs1)
              | Some db \<Rightarrow> for_each (save_sensor_forecasts env) db rs1))"

subsection \<open>Reading the trace\<close>

fun is_find_call :: "location \<Rightarrow> string \<Rightarrow> event \<Rightarrow> bool" where
  "is_find_call l n (FindSensor l' m n' r) = (l' = l \<and> n' = n)"
| "is_find_call l n _ = False"

definition find_count :: "location \<Rightarrow> string \<Rightarrow> event list \<Rightarrow> nat" where
  "find_count l n lg = length (filter (is_find_call l n) lg)"


definition saved_batches :: "event list \<Rightarrow> timed_belief list list" where
  "saved_batches lg = concat (map (\<lambda>e. case e of SaveToDb bs r \<Rightarrow> [bs] | _ \<Rightarrow> []) lg)"

text \<open>
  The events that are neither a call of the registry, nor a check of a resolution, nor a
  call of the storage.
\<close>

fun is_plain :: "event \<Rightarrow> bool" where
  "is_plain (FindSensor l m n r) = False"
| "is_plain (CheckResolution sp ws) = False"
| "is_plain (SaveToDb bs r) = False"
| "is_plain _ = True"

text \<open>The batch of a sensor in \<^verbatim>\<open>db_forecasts\<close>, empty for a sensor that is not a key.\<close>

definition batch_of :: "sensor \<Rightarrow> (sensor \<times> timed_belief list) list \<Rightarrow> timed_belief list" where
  "batch_of k db = (case map_of db k of None \<Rightarrow> [] | Some bs \<Rightarrow> bs)"

definition all_beliefs :: "(sensor \<times> timed_belief list) list \<Rightarrow> timed_belief list" where
  "all_beliefs db = concat (map snd db)"


section \<open>Concrete inputs\<close>

text \<open>
  The shape the normalizer is specified for: three day objects, each with a list of 24
  hourly entries under \<^verbatim>\<open>"hour"\<close>; and the 72 entries in order.
\<close>

definition day_hours :: "jval \<Rightarrow> jval list option" where
  "day_hours d = (case subscript_key d ''hour'' of Inr (JList hs) \<Rightarrow> Some hs | _ \<Rightarrow> None)"

definition three_days_of_24 :: "jval list \<Rightarrow> bool" where
  "three_days_of_24 data =
     (length data = 3 \<and>
      list_all (\<lambda>d. case day_hours d of None \<Rightarrow> False | Some hs \<Rightarrow> length hs = 24) data)"

definition all_hours :: "jval list \<Rightarrow> jval list" where
  "all_hours data = concat (map (\<lambda>d. case day_hours d of None \<Rightarrow> [] | Some hs \<Rightarrow> hs) data)"

text \<open>A WeatherAPI hourly entry, the n-th hour after the start of the forecast.\<close>

definition example_hour :: "nat \<Rightarrow> pystr \<Rightarrow> jval" where
  "example_hour n txt =
     JObj [(''time_epoch'', JInt (1700000000 + 3600 * int n)),
           (''temp_c'', JFloat (Finite False 12)), (''feelslike_c'', JFloat (Finite False 11)),
           (''pressure_mb'', JFloat (Finite False 1013)),
           (''humidity'', JInt 80), (''dewpoint_c'', JFloat (Finite False 8)),
           (''uv'', JFloat (Finite False 1)),
           (''cloud'', JInt 40), (''vis_km'', JFloat (Finite False 10)),
           (''wind_kph'', JFloat (Finite False 36)),
           (''wind_degree'', JInt 270), (''gust_kph'', JFloat (Finite False 54)),
           (''condition'',
              JObj [(''text'', JStr txt), (''icon'', JStr (str_of ''113.png'')),
                    (''code'', JInt 1003)]),
           (''chance_of_rain'', JInt 50)]"



definition example_hours :: "nat \<Rightarrow> (nat \<Rightarrow> pystr) \<Rightarrow> jval list" where
  "example_hours k txt = map (\<lambda>i. example_hour i (txt i)) [24 * k ..< 24 * k + 24]"

definition example_day :: "nat \<Rightarrow> (nat \<Rightarrow> pystr) \<Rightarrow> jval" where
  "example_day k txt =
     JObj [(''date'', JStr (str_of ''2023-11-14'')), (''hour'', JList (example_hours k txt))]"

definition example_data :: "(nat \<Rightarrow> pystr) \<Rightarrow> jval list" where
  "example_data txt = [example_day 0 txt, example_day 1 txt, example_day 2 txt]"

definition all_sunny :: "nat \<Rightarrow> pystr" where
  "all_sunny n = str_of ''Sunny intervals''"

definition no_text :: "nat \<Rightarrow> pystr" where
  "no_text n = []"

text \<open>The text of entry 30 is a space and a no-break space, U+00A0.\<close>

definition one_blank :: "nat \<Rightarrow> pystr" where
  "one_blank n = (if n = 30 then [32, 160] else str_of ''Sunny intervals'')"

text \<open>
  A run of the assembler: a registry with one sensor of one-hour resolution for every
  name at every location, a provider that answers every call with the same forecast hours
  and the call time 1700000040, a server clock that reads 1700000100, and in the place of
  the irradiance computation a function that returns the cloud-cover ratio it is given, so
  that the ratio shows in the belief.
\<close>

definition amsterdam :: location where
  "amsterdam = (52, 4)"

definition paris :: location where
  "paris = (48, 2)"

definition example_sensor :: "location \<Rightarrow> string \<Rightarrow> sensor" where
  "example_sensor l n =
     \<lparr>sensor_id = (if l = amsterdam then 100 else 200) + length n,
      sensor_name = n, sensor_event_resolution = 3600\<rparr>"

definition temperature_spec :: sensor_spec where
  "temperature_spec =
     \<lparr>fm_sensor_name = ''temperature'', weather_sensor_name = ''temp'',
      spec_unit = ''degC'', event_resolution = 3600\<rparr>"

definition irradiance_spec :: sensor_spec where
  "irradiance_spec =
     \<lparr>fm_sensor_name = ''irradiance'', weather_sensor_name = ''clouds'',
      spec_unit = ''W/m2'', event_resolution = 3600\<rparr>"

definition wind_speed_spec :: sensor_spec where
  "wind_speed_spec =
     \<lparr>fm_sensor_name = ''wind speed'', weather_sensor_name = ''wind_speed'',
      spec_unit = ''m/s'', event_resolution = 3600\<rparr>"

definition quarter_hour_spec :: sensor_spec where
  "quarter_hour_spec =
     \<lparr>fm_sensor_name = ''cloud cover'', weather_sensor_name = ''clouds'',
      spec_unit = ''%'', event_resolution = 900\<rparr>"

text \<open>A second entry for the name of \<open>temperature_spec\<close>, with another resolution.\<close>

definition temperature_quarter_spec :: sensor_spec where
  "temperature_quarter_spec =
     \<lparr>fm_sensor_name = ''temperature'', weather_sensor_name = ''temp'',
      spec_unit = ''degC'', event_resolution = 900\<rparr>"

definition example_forecast :: forecast where
  "example_forecast =
     [(''dt'', JInt 1700000000), (''temp'', JFloat (Finite False 12)), (''clouds'', JInt 40)]"

definition next_forecast :: forecast where
  "next_forecast =
     [(''dt'', JInt 1700003600), (''temp'', JFloat (Finite False 11)), (''clouds'', JInt 75)]"

definition example_forecasts :: "forecast list" where
  "example_forecasts = [example_forecast, next_forecast]"

definition primary_source :: data_source where
  "primary_source = DataSource ''OpenWeatherMap''"

definition derived_source :: data_source where
  "derived_source = DataSource ''FlexMeasures Weather''"

definition example_env :: "sensor_spec list \<Rightarrow> forecast list \<Rightarrow> unit env" where
  "example_env specs fcs =
     \<lparr>mapping = specs,
      weather_provider = ''OWM'',
      max_degree_difference = 1,
      server_now = (\<lambda>w. (1700000100, w)),
      call_openweatherapi = (\<lambda>key l w. (Inr (1700000040, fcs), w)),
      call_weatherapi = (\<lambda>key l w. (Inl (ExternalError ''status 401''), w)),
      fromtimestamp =
        (\<lambda>v. case v of JInt i \<Rightarrow> Inr (of_int i) | _ \<Rightarrow> Inl TypeError),
      find_weather_sensor_by_location = (\<lambda>l d n w. (Inr (Some (example_sensor l n)), w)),
      get_or_create_owm_data_source = (\<lambda>w. (primary_source, w)),
      get_or_create_owm_data_source_for_derived_data = (\<lambda>w. (derived_source, w)),
      compute_irradiance = (\<lambda>lat lon t ratio. Inr (JFloat ratio)),
      save_to_db = (\<lambda>bs w. (Inr ''success'', w))\<rparr>"

definition example_state :: "unit state" where
  "example_state =
     \<lparr>world = (), log = [], weather_sensors = Map.empty, db_forecasts = [],
      data_source = Some primary_source\<rparr>"

definition example_start :: "unit run_state" where
  "example_start = \<lparr>rworld = (), rlog = [], rdb = None\<rparr>"

definition example_run :: "sensor_spec list \<Rightarrow> location list \<Rightarrow> (error + unit) \<times> unit run_state" where
  "example_run specs locations =
     save_forecasts_in_db (example_env specs example_forecasts) ''key'' locations ()"

text \<open>What the saved beliefs say, in the order in which they were saved.\<close>

definition saved_beliefs :: "event list \<Rightarrow> timed_belief list" where
  "saved_beliefs lg = concat (saved_batches lg)"

definition saved_sensor_ids :: "event list \<Rightarrow> nat list" where
  "saved_sensor_ids lg = map (\<lambda>b. sensor_id (belief_sensor b)) (saved_beliefs lg)"

definition saved_belief_times :: "event list \<Rightarrow> time list" where
  "saved_belief_times lg = map belief_time (saved_beliefs lg)"

definition saved_sources :: "event list \<Rightarrow> (string \<times> data_source) list" where
  "saved_sources lg = map (\<lambda>b. (sensor_name (belief_sensor b), source b)) (saved_beliefs lg)"

definition api_call_times :: "event list \<Rightarrow> time list" where
  "api_call_times lg =
     concat (map (\<lambda>e. case e of CallApi l (Inr r) \<Rightarrow> [fst r] | _ \<Rightarrow> []) lg)"

section \<open>Properties\<close>


lemma ebind_simps: "ebind (Inr x) f = f x" "ebind (Inl e) f = Inl e"
  by (simp_all add: ebind_def)

lemma acceptedD: "accepted r \<Longrightarrow> \<exists>v. r = Inr v"
  by (cases r) (simp_all add: accepted_def)

lemma has_keyD: "has_key d k \<Longrightarrow> \<exists>v. subscript_key d k = Inr v"
  unfolding has_key_def by (rule acceptedD)

lemma map_prefix:
  assumes "fields_before_text d"
  shows "\<exists>dt temp feels pres hum dew uvi cl vis ws wd wg code.
     map_weather_api_to_owm d =
     ebind (ebind (condition_field d ''text'') split_first) (\<lambda>main.
     ebind (condition_field d ''text'') (\<lambda>description.
     ebind (condition_field d ''icon'') (\<lambda>icon.
     ebind (ebind (subscript_key d ''chance_of_rain'') (\<lambda>v. py_truediv_int v 100)) (\<lambda>pop.
     Inr (JObj
       [(''dt'', dt),
        (''temp'', temp),
        (''feels_like'', feels),
        (''pressure'', pres),
        (''humidity'', hum),
        (''dew_point'', dew),
        (''uvi'', uvi),
        (''clouds'', cl),
        (''visibility'', vis),
        (''wind_speed'', ws),
        (''wind_deg'', wd),
        (''wind_gust'', wg),
        (''weather'', JList [JObj
           [(''id'', code),
            (''main'', main),
            (''description'', description),
            (''icon'', icon)]]),
        (''pop'', pop)])))))"
proof -
  from assms obtain dt temp feels pres hum dew uvi cl wd where k:
    "subscript_key d ''time_epoch'' = Inr dt" "subscript_key d ''temp_c'' = Inr temp"
    "subscript_key d ''feelslike_c'' = Inr feels" "subscript_key d ''pressure_mb'' = Inr pres"
    "subscript_key d ''humidity'' = Inr hum" "subscript_key d ''dewpoint_c'' = Inr dew"
    "subscript_key d ''uv'' = Inr uvi" "subscript_key d ''cloud'' = Inr cl"
    "subscript_key d ''wind_degree'' = Inr wd"
    unfolding fields_before_text_def by (meson has_keyD)
  from assms obtain vis ws wg code where n:
    "ebind (subscript_key d ''vis_km'') (\<lambda>v. py_mul_int v 1000) = Inr vis"
    "ebind (subscript_key d ''wind_kph'') (\<lambda>v. py_truediv_float v 3.6) = Inr ws"
    "ebind (subscript_key d ''gust_kph'') (\<lambda>v. py_truediv_float v 3.6) = Inr wg"
    "condition_field d ''code'' = Inr code"
    unfolding fields_before_text_def by (meson acceptedD)
  have "map_weather_api_to_owm d =
     ebind (ebind (condition_field d ''text'') split_first) (\<lambda>main.
     ebind (condition_field d ''text'') (\<lambda>description.
     ebind (condition_field d ''icon'') (\<lambda>icon.
     ebind (ebind (subscript_key d ''chance_of_rain'') (\<lambda>v. py_truediv_int v 100)) (\<lambda>pop.
     Inr (JObj
       [(''dt'', dt),
        (''temp'', temp),
        (''feels_like'', feels),
        (''pressure'', pres),
        (''humidity'', hum),
        (''dew_point'', dew),
        (''uvi'', uvi),
        (''clouds'', cl),
        (''visibility'', vis),
        (''wind_speed'', ws),
        (''wind_deg'', wd),
        (''wind_gust'', wg),
        (''weather'', JList [JObj
           [(''id'', code),
            (''main'', main),
            (''description'', description),
            (''icon'', icon)]]),
        (''pop'', pop)])))))"
    unfolding map_weather_api_to_owm_def
    by (simp only: k n ebind_simps)
  then show ?thesis
    by (intro exI)
qed

lemma wf_hour_maps: "wf_hour d \<Longrightarrow> \<exists>out. map_weather_api_to_owm d = Inr out"
proof -
  assume w: "wf_hour d"
  then have f: "fields_before_text d" by (simp add: wf_hour_def)
  from w obtain t where t: "condition_field d ''text'' = Inr (JStr t)" "split t \<noteq> []"
    by (auto simp: wf_hour_def has_words_def split: sum.splits jval.splits)
  from w obtain icon pop where i: "condition_field d ''icon'' = Inr icon"
    "ebind (subscript_key d ''chance_of_rain'') (\<lambda>v. py_truediv_int v 100) = Inr pop"
    unfolding wf_hour_def by (meson acceptedD)
  from t(2) obtain w ws where "split t = w # ws"
    by (cases "split t") auto
  with map_prefix[OF f] show ?thesis
    using t i by (auto simp: ebind_simps)
qed

lemma blank_text_hour_fails: "blank_text_hour d \<Longrightarrow> map_weather_api_to_owm d = Inl IndexError"
proof -
  assume w: "blank_text_hour d"
  then have f: "fields_before_text d" by (simp add: blank_text_hour_def)
  from w obtain t where t: "condition_field d ''text'' = Inr (JStr t)" "split t = []"
    by (auto simp: blank_text_hour_def split: sum.splits jval.splits)
  from map_prefix[OF f] show ?thesis
    using t by (auto simp: ebind_simps)
qed

lemma map_err_all:
  "(\<forall>x \<in> set xs. \<exists>y. f x = Inr y) \<Longrightarrow>
   \<exists>ys. map_err f xs = Inr ys \<and> length ys = length xs \<and> (\<forall>i < length xs. f (xs ! i) = Inr (ys ! i))"
proof (induction xs)
  case Nil
  then show ?case by simp
next
  case (Cons x xs)
  then obtain y where y: "f x = Inr y" by auto
  from Cons obtain ys where ys: "map_err f xs = Inr ys" "length ys = length xs"
     "\<forall>i < length xs. f (xs ! i) = Inr (ys ! i)" by auto
  show ?case using y ys by (auto simp: nth_Cons split: nat.splits)
qed

lemma map_err_first_failure:
  "i < length xs \<Longrightarrow> f (xs ! i) = Inl e \<Longrightarrow> (\<forall>j < i. \<exists>y. f (xs ! j) = Inr y) \<Longrightarrow>
   map_err f xs = Inl e"
proof (induction xs arbitrary: i)
  case Nil
  then show ?case by simp
next
  case (Cons x xs)
  show ?case
  proof (cases i)
    case 0
    with Cons.prems show ?thesis by simp
  next
    case (Suc k)
    with Cons.prems have "k < length xs" "f (xs ! k) = Inl e" by auto
    moreover from Cons.prems Suc have "\<forall>j < k. \<exists>y. f (xs ! j) = Inr y"
      by (metis Suc_less_eq nth_Cons_Suc)
    ultimately have "map_err f xs = Inl e" by (rule Cons.IH)
    moreover from Cons.prems Suc obtain y where "f x = Inr y"
      by (metis nth_Cons_0 zero_less_Suc)
    ultimately show ?thesis by simp
  qed
qed

lemma py_slice_window:
  assumes "length xs = 72" "0 \<le> h" "h < 24"
  shows "py_slice xs h (h + 48) = take 48 (drop (nat h) xs)"
  using assms by (simp add: py_slice_def Let_def min_def nat_diff_distrib)


lemma bitlen_one: "bitlen 1 = 1"
  by (simp add: bitlen_def floorlog_def)

lemma round_half_even_int: "round_half_even (of_int z) = z"
  by (simp add: round_half_even_def)

lemma binary_exponent_int:
  assumes "0 < n"
  shows "binary_exponent (of_int n) = bitlen n - 1"
proof -
  from assms have b: "2 ^ nat (bitlen n - 1) \<le> n" "0 < bitlen n"
    using bitlen_bounds [of n] bitlen_nonneg [of n] bitlen_eq_zero_iff [of n] by auto
  have "(2 :: rat) ^ nat (bitlen n - 1) = of_int (2 ^ nat (bitlen n - 1))"
    by simp
  also have "\<dots> \<le> of_int n"
    using b(1) by (simp only: of_int_le_iff)
  finally show ?thesis
    using b(2) by (simp add: binary_exponent_def scale2_def bitlen_one Let_def)
qed

lemma bitlen_below:
  assumes "0 < n" and "n < 2 ^ 53"
  shows "bitlen n - 1 \<le> 52"
proof -
  from assms(1) have le: "(2 :: int) ^ nat (bitlen n - 1) \<le> n"
    using bitlen_bounds [of n] by simp
  have lt: "(2 :: int) ^ nat (bitlen n - 1) < 2 ^ 53"
    by (rule le_less_trans [OF le assms(2)])
  have "(1 :: int) < 2"
    by simp
  from power_less_imp_less_exp [OF this lt] show ?thesis
    by simp
qed

text \<open>An integer below \<open>2 ^ 53\<close> is a double.\<close>

lemma round_to_double_int:
  assumes "0 \<le> n" and "n < 2 ^ 53"
  shows "round_to_double s (of_int n) = Finite s (of_int n)"
proof (cases "n = 0")
  case True
  then show ?thesis by (simp add: round_to_double_def)
next
  case False
  with assms have pos: "0 < n" by simp
  define k where "k = bitlen n - 1"
  have k: "0 \<le> k" "k \<le> 52"
    using pos assms(2) bitlen_below [of n] bitlen_nonneg [of n] bitlen_eq_zero_iff [of n]
    by (auto simp: k_def)
  have e: "binary_exponent (of_int n) = k"
    using pos by (simp add: binary_exponent_int k_def)
  have sc: "scale2 (of_int n) (52 - k) = of_int (n * 2 ^ nat (52 - k))"
    using k by (simp add: scale2_def)
  have mx: "max k (- 1022) = k"
    using k by simp
  have se: "significand_exponent (of_int n) = (n * 2 ^ nat (52 - k), k)"
    by (simp only: significand_exponent_def e Let_def mx sc round_half_even_int)
  have unscale: "scale2 (of_int (n * 2 ^ nat (52 - k))) (k - 52) = of_int n"
  proof (cases "k = 52")
    case True
    then show ?thesis by (simp add: scale2_def)
  next
    case False
    with k have "nat (- (k - 52)) = nat (52 - k)" "\<not> 0 \<le> k - 52" by simp_all
    then show ?thesis by (simp add: scale2_def)
  qed
  have nz: "(of_int n :: rat) \<noteq> 0"
    using pos by simp
  have fin: "\<not> (1023 < k \<or> k = 1023 \<and> 2 ^ 53 \<le> n * 2 ^ nat (52 - k))"
    using k by simp
  show ?thesis
    by (simp only: round_to_double_def nz if_False se Let_def prod.case fin unscale)
qed

lemma int_to_float_exact:
  assumes "\<bar>i\<bar> < 2 ^ 53"
  shows "int_to_float i = Inr (Finite (i < 0) (of_int \<bar>i\<bar>))"
  using assms round_to_double_int [of "\<bar>i\<bar>" "i < 0"] by (simp add: int_to_float_def)

lemma float_literal_100: "float_literal 100 = Finite False 100"
  using round_to_double_int [of 100 False] by (simp add: float_literal_def)

text \<open>
  \<^verbatim>\<open>n / 100.0\<close>: for a finite float, and for an int below \<open>2 ^ 53\<close>, the exact
  hundredth of the number rounded to the nearest double.
\<close>

lemma hundredth_of_float:
  "truediv_float (PyFloat (Finite s a)) 100 = Inr (round_to_double s (a / 100))"
  by (simp add: truediv_float_def ebind_def float_literal_100)

lemma hundredth_of_int:
  assumes "\<bar>i\<bar> < 2 ^ 53"
  shows "truediv_float (PyInt i) 100 = Inr (round_to_double (i < 0) (of_int \<bar>i\<bar> / 100))"
  using assms by (simp add: truediv_float_def ebind_def float_literal_100 int_to_float_exact)

lemma py_slice_prefix:
  assumes "0 \<le> h" "nat h + i \<le> length xs"
  shows "py_slice xs h (h + int i) = take i (drop (nat h) xs)"
proof -
  from assms have a: "\<not> h < 0" "\<not> h + int i < 0" "h \<le> int (length xs)"
    "h + int i \<le> int (length xs)" "nat (h + int i - h) = i"
    by simp_all
  show ?thesis
    by (simp only: py_slice_def Let_def a if_False min_absorb1)
qed

lemma process_three_days:
  assumes "subscript_key d0 ''hour'' = Inr (JList h0)"
    and "subscript_key d1 ''hour'' = Inr (JList h1)"
    and "subscript_key d2 ''hour'' = Inr (JList h2)"
  shows "process_weatherapi_data [d0, d1, d2] h =
         map_err map_weather_api_to_owm (py_slice (h0 @ h1 @ h2) h (h + 48))"
  using assms by (simp add: process_weatherapi_data_def py_index_def ebind_def)

lemma day_hoursD: "day_hours d = Some hs \<Longrightarrow> subscript_key d ''hour'' = Inr (JList hs)"
  by (auto simp: day_hours_def split: sum.splits jval.splits)

lemma three_days_process:
  assumes "three_days_of_24 data"
  shows "length (all_hours data) = 72"
    and "process_weatherapi_data data h =
         map_err map_weather_api_to_owm (py_slice (all_hours data) h (h + 48))"
proof -
  from assms have "length data = 3" by (simp add: three_days_of_24_def)
  then obtain d0 d1 d2 where data: "data = [d0, d1, d2]"
    by (auto simp: numeral_3_eq_3 length_Suc_conv)
  from assms obtain h0 h1 h2 where hs:
    "day_hours d0 = Some h0" "day_hours d1 = Some h1" "day_hours d2 = Some h2"
    "length h0 = 24" "length h1 = 24" "length h2 = 24"
    by (auto simp: three_days_of_24_def data split: option.splits)
  have all: "all_hours data = h0 @ h1 @ h2"
    by (simp add: all_hours_def data hs)
  show "length (all_hours data) = 72"
    by (simp add: all hs)
  have "process_weatherapi_data [d0, d1, d2] h =
         map_err map_weather_api_to_owm (py_slice (h0 @ h1 @ h2) h (h + 48))"
    by (rule process_three_days) (simp_all add: hs day_hoursD)
  then show "process_weatherapi_data data h =
         map_err map_weather_api_to_owm (py_slice (all_hours data) h (h + 48))"
    by (simp add: data all [unfolded data])
qed

text \<open>
  C2, as amended. For three days of 24 hourly entries and an hour index from 0 to 23, if
  each entry of the window of 48 has the fields the mapper reads, with numbers within the
  range of the floats where it computes and a condition text with at least one word, the
  normalizer returns exactly 48 entries, and entry i of the result is the mapped image of
  entry h + i of the 72 entries in their order.
\<close>

theorem normalizer_window:
  assumes "three_days_of_24 data" and "0 \<le> h" and "h < 24"
    and "list_all wf_hour (py_slice (all_hours data) h (h + 48))"
  shows "\<exists>out. process_weatherapi_data data h = Inr out \<and> length out = 48 \<and>
           (\<forall>i < 48. map_weather_api_to_owm (all_hours data ! (nat h + i)) = Inr (out ! i))"
proof -
  define hours where "hours = all_hours data"
  define win where "win = py_slice hours h (h + 48)"
  have total: "length hours = 72"
    unfolding hours_def using assms(1) by (rule three_days_process)
  have win: "win = take 48 (drop (nat h) hours)"
    unfolding win_def using total assms(2,3) by (rule py_slice_window)
  have len: "length win = 48"
    using total assms(2,3) by (simp add: win)
  have nth: "win ! i = hours ! (nat h + i)" if "i < 48" for i
    using that total assms(2,3) by (simp add: win)
  from assms(4) have "\<forall>x \<in> set win. \<exists>y. map_weather_api_to_owm x = Inr y"
    by (simp add: list_all_iff wf_hour_maps win_def hours_def)
  from map_err_all[OF this] obtain out where out:
    "map_err map_weather_api_to_owm win = Inr out" "length out = length win"
    "\<forall>i < length win. map_weather_api_to_owm (win ! i) = Inr (out ! i)"
    by blast
  have "process_weatherapi_data data h = Inr out"
    using out(1) three_days_process(2)[OF assms(1)] by (simp add: win_def hours_def)
  moreover have "length out = 48" using out(2) len by simp
  moreover have "\<forall>i < 48. map_weather_api_to_owm (hours ! (nat h + i)) = Inr (out ! i)"
    using out(3) len nth by simp
  ultimately show ?thesis unfolding hours_def by blast
qed

text \<open>
  The rounding on known values: the doubles that Python prints as 0.1 and 3.6, a tie that
  goes to the even significand, the smallest subnormal number, a magnitude that rounds to
  zero, and the conversions of the example entries.
\<close>

lemma round_to_double_examples:
  "round_to_double False (1 / 10) = Finite False (3602879701896397 / 36028797018963968)"
  "float_literal 3.6 = Finite False (8106479329266893 / 2251799813685248)"
  "round_to_double False (2 ^ 53 + 1) = Finite False (2 ^ 53)"
  "round_to_double False (2 ^ 53 + 3) = Finite False (2 ^ 53 + 4)"
  "float_literal (- 7 / 2) = Finite True (7 / 2)"
  by code_simp+

lemma example_conversions:
  "py_mul_int (JFloat (Finite False 10)) 1000 = Inr (JFloat (Finite False 10000))"
  "py_truediv_float (JFloat (Finite False 36)) 3.6 = Inr (JFloat (Finite False 10))"
  "py_truediv_float (JFloat (Finite False 54)) 3.6 = Inr (JFloat (Finite False 15))"
  "py_truediv_int (JInt 50) 100 = Inr (JFloat (Finite False (1 / 2)))"
  by code_simp+

lemma float_literal_written: "(3.6 :: rat) = 18 / 5"
  by simp

lemma example_hour_fields: "fields_before_text (example_hour n t)"
  by (simp add: fields_before_text_def has_key_def accepted_def condition_field_def
      ebind_simps example_hour_def example_conversions [unfolded float_literal_written]
      del: py_mul_int.simps)

lemma example_hour_wf: "split t \<noteq> [] \<Longrightarrow> wf_hour (example_hour n t)"
  using example_hour_fields [of n t]
  by (simp add: wf_hour_def has_words_def accepted_def condition_field_def
      ebind_simps example_hour_def example_conversions)

lemma example_hour_blank: "split t = [] \<Longrightarrow> blank_text_hour (example_hour n t)"
  using example_hour_fields [of n t]
  by (simp add: blank_text_hour_def condition_field_def ebind_simps example_hour_def)

lemma split_sunny: "split (str_of ''Sunny intervals'') \<noteq> []"
  by (simp add: split_def is_space_def str_of_def)

lemma split_blank: "split [32, 160] = []" "split [] = []"
  by (simp_all add: split_def is_space_def)

lemma example_data_shape: "three_days_of_24 (example_data txt)"
  by (simp add: three_days_of_24_def example_data_def day_hours_def example_day_def
      example_hours_def)

lemma example_all_hours:
  "all_hours (example_data txt) = map (\<lambda>i. example_hour i (txt i)) [0..<72]"
proof -
  have "[0..<72] = [0..<24] @ [24..<48] @ [48..<72::nat]"
    using upt_add_eq_append [of 0 24 48] upt_add_eq_append [of 24 48 24] by simp
  then show ?thesis
    by (simp add: all_hours_def example_data_def day_hours_def example_day_def
        example_hours_def)
qed

theorem normalizer_window_witness:
  "\<exists>out. process_weatherapi_data (example_data all_sunny) 13 = Inr out \<and> length out = 48 \<and>
     map_weather_api_to_owm (example_hour 13 (str_of ''Sunny intervals'')) = Inr (out ! 0) \<and>
     map_weather_api_to_owm (example_hour 60 (str_of ''Sunny intervals'')) = Inr (out ! 47)"
proof -
  have wf: "list_all wf_hour (py_slice (all_hours (example_data all_sunny)) 13 (13 + 48))"
    by (simp add: list_all_iff example_all_hours py_slice_def take_map drop_map
        example_hour_wf split_sunny all_sunny_def)
  have first: "all_hours (example_data all_sunny) ! (nat 13 + 0) = example_hour 13 (str_of ''Sunny intervals'')"
    by (simp add: example_all_hours all_sunny_def)
  have last: "all_hours (example_data all_sunny) ! (nat 13 + 47) = example_hour 60 (str_of ''Sunny intervals'')"
    by (simp add: example_all_hours all_sunny_def)
  from normalizer_window [OF example_data_shape _ _ wf]
  obtain out where out: "process_weatherapi_data (example_data all_sunny) 13 = Inr out"
    "length out = 48"
    "\<forall>i < 48. map_weather_api_to_owm (all_hours (example_data all_sunny) ! (nat 13 + i)) = Inr (out ! i)"
    by auto
  have "map_weather_api_to_owm (all_hours (example_data all_sunny) ! (nat 13 + 0)) = Inr (out ! 0)"
    using out(3) [THEN spec, of 0] by simp
  moreover
  have "map_weather_api_to_owm (all_hours (example_data all_sunny) ! (nat 13 + 47)) = Inr (out ! 47)"
    using out(3) [THEN spec, of 47] by simp
  ultimately show ?thesis
    using out(1,2) by (simp only: first last) blast
qed

theorem normalizer_window_counterexample:
  "three_days_of_24 (example_data no_text) \<and>
   process_weatherapi_data (example_data no_text) 0 = Inl IndexError"
proof -
  have "map_weather_api_to_owm (example_hour 0 []) = Inl IndexError"
    by (rule blank_text_hour_fails) (simp add: example_hour_blank split_blank)
  then have "map_err map_weather_api_to_owm (py_slice (all_hours (example_data no_text)) 0 (0 + 48))
      = Inl IndexError"
    by (simp add: example_all_hours py_slice_def no_text_def take_map drop_map upt_conv_Cons)
  then show ?thesis
    by (simp add: example_data_shape three_days_process(2))
qed








text \<open>
  C10. The normalizer fails on a well-shaped input as soon as the first entry of the window
  that the mapper does not accept is one with a condition text without a word: taking the
  first word raises \<open>IndexError\<close>, and nothing is returned.
\<close>

theorem normalizer_blank_text:
  assumes "three_days_of_24 data" and "0 \<le> h" and "h < 24" and "i < 48"
    and "blank_text_hour (all_hours data ! (nat h + i))"
    and "list_all wf_hour (py_slice (all_hours data) h (h + int i))"
  shows "process_weatherapi_data data h = Inl IndexError"
proof -
  define hours where "hours = all_hours data"
  define win where "win = py_slice hours h (h + 48)"
  have total: "length hours = 72"
    unfolding hours_def using assms(1) by (rule three_days_process)
  have win: "win = take 48 (drop (nat h) hours)"
    unfolding win_def using total assms(2,3) by (rule py_slice_window)
  have len: "i < length win"
    using total assms(2,3,4) by (simp add: win)
  have nth: "win ! j = hours ! (nat h + j)" if "j < 48" for j
    using that total assms(2,3) by (simp add: win)
  have pre: "py_slice hours h (h + int i) = take i (drop (nat h) hours)"
    using total assms(2,3,4) by (intro py_slice_prefix) auto
  have bad: "map_weather_api_to_owm (win ! i) = Inl IndexError"
    using assms(4,5) by (simp add: nth hours_def blank_text_hour_fails)
  have good: "\<forall>j < i. \<exists>y. map_weather_api_to_owm (win ! j) = Inr y"
  proof (intro allI impI)
    fix j assume j: "j < i"
    then have "take i (drop (nat h) hours) ! j = win ! j"
      using assms(4) total assms(2,3) by (simp add: win)
    moreover have "take i (drop (nat h) hours) ! j \<in> set (take i (drop (nat h) hours))"
      using j total assms(2,3,4) by (intro nth_mem) simp
    ultimately have "wf_hour (win ! j)"
      using assms(6) by (simp add: list_all_iff pre hours_def [symmetric])
    then show "\<exists>y. map_weather_api_to_owm (win ! j) = Inr y"
      by (rule wf_hour_maps)
  qed
  have "map_err map_weather_api_to_owm win = Inl IndexError"
    using len bad good by (rule map_err_first_failure)
  then show ?thesis
    using three_days_process(2)[OF assms(1)] by (simp add: win_def hours_def)
qed

theorem normalizer_blank_text_witness:
  "process_weatherapi_data (example_data one_blank) 7 = Inl IndexError"
proof -
  have bad: "blank_text_hour (all_hours (example_data one_blank) ! (nat 7 + 23))"
    by (simp add: example_all_hours one_blank_def example_hour_blank split_blank)
  have good: "list_all wf_hour (py_slice (all_hours (example_data one_blank)) 7 (7 + int 23))"
    by (simp add: list_all_iff example_all_hours py_slice_def take_map drop_map one_blank_def
        example_hour_wf split_sunny)
  show ?thesis
    by (rule normalizer_blank_text [OF example_data_shape _ _ _ bad good]) simp_all
qed

subsection \<open>Loops\<close>

lemma for_each_rule:
  assumes "P s"
    and "\<And>x s. x \<in> set xs \<Longrightarrow> P s \<Longrightarrow>
           (case body x s of (Inl e, s') \<Rightarrow> Q e s' | (Inr u, s') \<Rightarrow> P s')"
  shows "case for_each body xs s of (Inl e, s') \<Rightarrow> Q e s' | (Inr u, s') \<Rightarrow> P s'"
  using assms
proof (induction xs arbitrary: s)
  case Nil
  then show ?case by simp
next
  case (Cons x xs)
  from Cons.prems(2) [of x s] Cons.prems(1)
  have step: "case body x s of (Inl e, s') \<Rightarrow> Q e s' | (Inr u, s') \<Rightarrow> P s'"
    by simp
  show ?case
  proof (cases "body x s")
    case (Pair r s')
    show ?thesis
    proof (cases r)
      case (Inl e)
      with Pair step show ?thesis by simp
    next
      case (Inr u)
      with Pair step have "P s'" by simp
      then have "case for_each body xs s' of (Inl e, t) \<Rightarrow> Q e t | (Inr u, t) \<Rightarrow> P t"
        by (rule Cons.IH) (simp add: Cons.prems(2))
      with Pair Inr show ?thesis by simp
    qed
  qed
qed

lemma for_each_invariant:
  assumes "P s" and "\<And>x s. x \<in> set xs \<Longrightarrow> P s \<Longrightarrow> P (snd (body x s))"
  shows "P (snd (for_each body xs s))"
proof -
  have "case for_each body xs s of (Inl e, s') \<Rightarrow> P s' | (Inr u, s') \<Rightarrow> P s'"
  proof (rule for_each_rule [where P = P and Q = "\<lambda>e. P"])
    show "P s" by fact
  next
    fix x t assume "x \<in> set xs" "P t"
    then have "P (snd (body x t))" by (rule assms(2))
    then show "case body x t of (Inl e, s') \<Rightarrow> P s' | (Inr u, s') \<Rightarrow> P s'"
      by (auto split: prod.splits sum.splits)
  qed
  then show ?thesis
    by (auto split: prod.splits sum.splits)
qed

subsection \<open>The batches\<close>

lemma all_beliefs_setdefault: "all_beliefs (db_setdefault k db) = all_beliefs db"
  by (simp add: all_beliefs_def db_setdefault_def)

lemma all_beliefs_append: "set (all_beliefs (db_append k b db)) \<subseteq> insert b (set (all_beliefs db))"
proof (induction db)
  case Nil
  then show ?case by (simp add: all_beliefs_def)
next
  case (Cons kv db)
  obtain k' bs where kv: "kv = (k', bs)" by (cases kv)
  show ?case
  proof (cases "k' = k")
    case True
    then show ?thesis by (auto simp: all_beliefs_def kv)
  next
    case False
    with Cons.IH show ?thesis by (auto simp: all_beliefs_def kv)
  qed
qed

lemma map_of_db_append:
  "map_of (db_append k b db) k = (case map_of db k of None \<Rightarrow> None | Some bs \<Rightarrow> Some (bs @ [b]))"
  by (induction db) auto

lemma batch_of_stored:
  "map_of (db_append k b (db_setdefault k db)) k = Some (batch_of k db @ [b])"
  by (auto simp: map_of_db_append db_setdefault_def batch_of_def split: option.splits)

subsection \<open>What the resolver leaves alone\<close>

lemma get_weather_sensor_frame:
  assumes "get_weather_sensor env sp l m s = (r, s1)"
  shows "db_forecasts s1 = db_forecasts s" and "data_source s1 = data_source s"
  using assms
  by (auto simp: get_weather_sensor_def emit_def Let_def
      split: option.splits prod.splits sum.splits)

subsection \<open>Belief times\<close>

lemma store_belief_times:
  assumes "\<forall>b \<in> set (all_beliefs (db_forecasts s)). belief_time b = now"
  shows "\<forall>b \<in> set (all_beliefs (db_forecasts (snd (store_belief now t k v s)))). belief_time b = now"
proof (cases "data_source s")
  case None
  with assms show ?thesis by (simp add: store_belief_def)
next
  case (Some src)
  show ?thesis
  proof
    fix b assume "b \<in> set (all_beliefs (db_forecasts (snd (store_belief now t k v s))))"
    then have "b \<in> insert \<lparr>event_start = t, belief_time = now, event_value = v,
                 belief_sensor = k, source = src\<rparr> (set (all_beliefs (db_forecasts s)))"
      using all_beliefs_append by (auto simp: store_belief_def Some)
    with assms show "belief_time b = now" by auto
  qed
qed

lemma process_sensor_specs_times:
  assumes "\<forall>b \<in> set (all_beliefs (db_forecasts s)). belief_time b = now"
  shows "\<forall>b \<in> set (all_beliefs (db_forecasts (snd (process_sensor_specs env l m now fc t sp s)))).
           belief_time b = now"
proof (cases "map_of fc (weather_sensor_name sp)")
  case None
  with assms show ?thesis
    by (simp add: process_sensor_specs_def emit_def Let_def)
next
  case (Some v)
  obtain r s1 where g: "get_weather_sensor env sp l m s = (r, s1)"
    by (cases "get_weather_sensor env sp l m s")
  from get_weather_sensor_frame(1) [OF g] assms
  have s1: "\<forall>b \<in> set (all_beliefs (db_forecasts s1)). belief_time b = now"
    by simp
  show ?thesis
  proof (cases r)
    case (Inl e)
    with Some g s1 show ?thesis
      by (simp add: process_sensor_specs_def)
  next
    case (Inr found)
    show ?thesis
    proof (cases found)
      case None
      with Some g s1 Inr show ?thesis
        by (simp add: process_sensor_specs_def)
    next
      case (Some ws)
      define s3 where "s3 = (emit (Echo (FoundSensor (sensor_name ws))) s1)
          \<lparr>db_forecasts := db_setdefault ws (db_forecasts (emit (Echo (FoundSensor (sensor_name ws))) s1))\<rparr>"
      have s3: "\<forall>b \<in> set (all_beliefs (db_forecasts s3)). belief_time b = now"
        using s1 by (simp add: s3_def emit_def all_beliefs_setdefault)
      have s4: "\<forall>b \<in> set (all_beliefs (db_forecasts (s3\<lparr>world := w, data_source := d\<rparr>))).
          belief_time b = now" for w d
        using s3 by simp
      show ?thesis
        using \<open>map_of fc (weather_sensor_name sp) = Some v\<close> g Inr Some s3
          store_belief_times [OF s3] store_belief_times [OF s4]
        by (simp add: process_sensor_specs_def Let_def s3_def [symmetric]
            split: option.splits sum.splits prod.splits)
    qed
  qed
qed

lemma process_forecast_times:
  assumes "\<forall>b \<in> set (all_beliefs (db_forecasts s)). belief_time b = now"
  shows "\<forall>b \<in> set (all_beliefs (db_forecasts (snd (process_forecast env l m now fc s)))).
           belief_time b = now"
proof (cases "ebind (case map_of fc ''dt'' of None \<Rightarrow> Inl (KeyError ''dt'') | Some v \<Rightarrow> Inr v)
             (fromtimestamp env)")
  case (Inl e)
  with assms show ?thesis by (simp add: process_forecast_def)
next
  case (Inr t)
  obtain src w where src: "get_or_create_owm_data_source env (world (emit (Echo (ProcessingForecast t)) s)) = (src, w)"
    by (cases "get_or_create_owm_data_source env (world (emit (Echo (ProcessingForecast t)) s))")
  define s2 where "s2 = (emit (Echo (ProcessingForecast t)) s)\<lparr>world := w, data_source := Some src\<rparr>"
  have "\<forall>b \<in> set (all_beliefs (db_forecasts s2)). belief_time b = now"
    using assms by (simp add: s2_def emit_def)
  then have "\<forall>b \<in> set (all_beliefs (db_forecasts
      (snd (for_each (process_sensor_specs env l m now fc t) (mapping env) s2)))). belief_time b = now"
    by (rule for_each_invariant) (rule process_sensor_specs_times)
  then show ?thesis
    by (simp add: process_forecast_def Inr Let_def src s2_def)
qed

lemma call_api_frame:
  assumes "call_api env key l s = (r, s1)"
  shows "db_forecasts s1 = db_forecasts s"
  using assms
  by (auto simp: call_api_def emit_def Let_def split: if_splits prod.splits)

text \<open>
  C3, as amended. Every belief accumulated for a location carries as its belief time the
  reading of the server clock taken at the start of that location's iteration, before the
  dispatcher is called; it is not the call time that the dispatcher returns.
\<close>

theorem belief_time_is_server_now:
  assumes "process_location env api_key max_degree location rs = (r, rs')"
    and "rdb rs' = Some db" and "b \<in> set (all_beliefs db)"
  shows "belief_time b = fst (server_now env (rworld rs))"
proof -
  define s0 where "s0 = \<lparr>world = rworld rs, log = rlog rs @ [Echo (LocationLine location)],
     weather_sensors = Map.empty, db_forecasts = [], data_source = None\<rparr>"
  obtain now w where now: "server_now env (rworld rs) = (now, w)"
    by (cases "server_now env (rworld rs)")
  have w0: "world s0 = rworld rs"
    by (simp add: s0_def)
  obtain c s2 where c: "call_api env api_key location (s0\<lparr>world := w\<rparr>) = (c, s2)"
    by (cases "call_api env api_key location (s0\<lparr>world := w\<rparr>)")
  have empty: "db_forecasts s2 = []"
    using call_api_frame [OF c] by (simp add: s0_def)
  show ?thesis
  proof (cases c)
    case (Inl e)
    with assms now c empty show ?thesis
      by (auto simp: process_location_def s0_def [symmetric] w0 leave_location_def emit_def
          all_beliefs_def)
  next
    case (Inr tf)
    obtain t fcs where tf: "tf = (t, fcs)" by (cases tf)
    define s4 where "s4 = emit (Echo (CalledApi now))
       (if 600 < \<bar>now - t\<bar>
        then emit (Echo (ClockDifference (now - t))) (emit (CallApi location (Inr (t, fcs))) s2)
        else emit (CallApi location (Inr (t, fcs))) s2)"
    have "\<forall>b \<in> set (all_beliefs (db_forecasts s4)). belief_time b = now"
      by (simp add: s4_def emit_def empty all_beliefs_def)
    then have inv: "\<forall>b \<in> set (all_beliefs (db_forecasts
        (snd (for_each (process_forecast env location max_degree now) fcs s4)))). belief_time b = now"
      by (rule for_each_invariant) (rule process_forecast_times)
    have "rs' = leave_location (snd (for_each (process_forecast env location max_degree now) fcs s4))"
      using assms(1) now c Inr tf
      by (auto simp: process_location_def s0_def [symmetric] w0 Let_def s4_def
          split: prod.splits)
    with assms(2,3) inv show ?thesis
      by (simp add: leave_location_def now)
  qed
qed

lemmas run_defs =
  example_run_def save_forecasts_in_db_def process_location_def process_forecast_def
  process_sensor_specs_def get_weather_sensor_def check_resolution_def store_belief_def
  call_api_def save_sensor_forecasts_def leave_location_def emit_def remit_def
  db_setdefault_def example_env_def example_forecasts_def example_forecast_def
  next_forecast_def
  example_sensor_def example_state_def example_start_def
  temperature_spec_def irradiance_spec_def wind_speed_spec_def quarter_hour_spec_def
  temperature_quarter_spec_def
  primary_source_def derived_source_def amsterdam_def paris_def ebind_def Let_def

lemmas trace_defs =
  saved_beliefs_def saved_batches_def saved_sensor_ids_def saved_belief_times_def
  saved_sources_def api_call_times_def find_count_def all_beliefs_def

lemma cloud_ratios:
  "truediv_float (PyInt 40) 100 = Inr (Finite False (3602879701896397 / 9007199254740992))"
  "truediv_float (PyInt 75) 100 = Inr (Finite False (3 / 4))"
  by code_simp+

theorem belief_time_is_server_now_witness:
  "\<exists>rs' db b.
     process_location (example_env [temperature_spec] example_forecasts) ''key'' 1 amsterdam
       example_start = (Inr (), rs') \<and>
     rdb rs' = Some db \<and> b \<in> set (all_beliefs db) \<and> belief_time b = 1700000100"
proof -
  obtain r rs' where run:
    "process_location (example_env [temperature_spec] example_forecasts) ''key'' 1 amsterdam
       example_start = (r, rs')"
    by (cases "process_location (example_env [temperature_spec] example_forecasts) ''key'' 1
       amsterdam example_start")
  have r: "r = Inr ()"
    using run by (simp add: run_defs)
  have "\<exists>db. rdb rs' = Some db \<and> all_beliefs db \<noteq> []"
    using run by (auto simp: run_defs all_beliefs_def)
  then obtain db where db1: "rdb rs' = Some db" and ne: "all_beliefs db \<noteq> []"
    by blast
  from ne obtain b where "b \<in> set (all_beliefs db)"
    by (cases "all_beliefs db") auto
  with db1 have db: "rdb rs' = Some db" "b \<in> set (all_beliefs db)"
    by simp_all
  have "belief_time b =
      fst (server_now (example_env [temperature_spec] example_forecasts) (rworld example_start))"
    using run db by (rule belief_time_is_server_now)
  then have "belief_time b = 1700000100"
    by (simp add: example_env_def)
  with run r db show ?thesis by blast
qed

theorem belief_time_counterexample:
  "api_call_times (rlog (snd (example_run [temperature_spec] [amsterdam]))) = [1700000040] \<and>
   saved_belief_times (rlog (snd (example_run [temperature_spec] [amsterdam])))
     = [1700000100, 1700000100]"
  by (simp add: run_defs trace_defs)

text \<open>
  C4. In a forecast hour where the provider field of the irradiance entry is present with a
  number, a sensor is resolved, the division of the number by the float 100 gives a ratio
  (it raises \<open>OverflowError\<close> on an int beyond the range of the floats) and the irradiance
  model returns a value for that ratio, the belief appended to that sensor's batch has the
  source returned by \<^verbatim>\<open>get_or_create_owm_data_source_for_derived_data\<close>, whatever
  \<^verbatim>\<open>data_source\<close> held before, and its value is the result of
  \<^verbatim>\<open>compute_irradiance\<close> at the ratio, not the provider's value. The ratio is the
  provider's percentage divided by 100: for a finite float, and for an int below
  \<open>2 ^ 53\<close>, the exact hundredth of it rounded to the nearest double.
\<close>

theorem irradiance_belief:
  assumes "fm_sensor_name sensor_specs = ''irradiance''"
    and "map_of fc (weather_sensor_name sensor_specs) = Some fc_value"
    and "as_number fc_value = Some cloud_cover"
    and "get_weather_sensor env sensor_specs location max_degree s = (Inr (Some weather_sensor), s1)"
    and "truediv_float cloud_cover 100 = Inr ratio"
    and "compute_irradiance env (fst location) (snd location) fc_datetime ratio = Inr irradiance"
    and "process_sensor_specs env location max_degree now fc fc_datetime sensor_specs s = (r, s')"
  shows "r = Inr () \<and>
         map_of (db_forecasts s') weather_sensor =
           Some (batch_of weather_sensor (db_forecasts s1) @
             [\<lparr>event_start = fc_datetime, belief_time = now, event_value = irradiance,
               belief_sensor = weather_sensor,
               source = fst (get_or_create_owm_data_source_for_derived_data env (world s1))\<rparr>]) \<and>
         (\<forall>i. cloud_cover = PyInt i \<and> \<bar>i\<bar> < 2 ^ 53 \<longrightarrow>
              ratio = round_to_double (i < 0) (of_int \<bar>i\<bar> / 100)) \<and>
         (\<forall>sign a. cloud_cover = PyFloat (Finite sign a) \<longrightarrow>
              ratio = round_to_double sign (a / 100))"
proof -
  have "r = Inr () \<and>
         map_of (db_forecasts s') weather_sensor =
           Some (batch_of weather_sensor (db_forecasts s1) @
             [\<lparr>event_start = fc_datetime, belief_time = now, event_value = irradiance,
               belief_sensor = weather_sensor,
               source = fst (get_or_create_owm_data_source_for_derived_data env (world s1))\<rparr>])"
    using assms(7)
    by (auto simp: process_sensor_specs_def Let_def assms(1-6) ebind_simps store_belief_def
        emit_def batch_of_stored split: prod.splits)
  moreover have "ratio = round_to_double (i < 0) (of_int \<bar>i\<bar> / 100)"
    if "cloud_cover = PyInt i \<and> \<bar>i\<bar> < 2 ^ 53" for i
    using that assms(5) hundredth_of_int [of i] by simp
  moreover have "ratio = round_to_double sign (a / 100)"
    if "cloud_cover = PyFloat (Finite sign a)" for sign a
    using that assms(5) hundredth_of_float [of sign a] by simp
  ultimately show ?thesis
    by blast
qed

lemma ratio_of_forty:
  "round_to_double False (40 / 100) = Finite False (3602879701896397 / 9007199254740992)"
  by code_simp

theorem irradiance_belief_witness:
  "\<exists>s'. process_sensor_specs (example_env [irradiance_spec] example_forecasts) amsterdam 1
       1700000100 example_forecast 1700000000 irradiance_spec example_state = (Inr (), s') \<and>
     map_of (db_forecasts s') (example_sensor amsterdam ''irradiance'') =
       Some [\<lparr>event_start = 1700000000, belief_time = 1700000100,
              event_value = JFloat (Finite False (3602879701896397 / 9007199254740992)),
              belief_sensor = example_sensor amsterdam ''irradiance'',
              source = derived_source\<rparr>] \<and>
     truediv_float (PyInt 40) 100 = Inr (round_to_double False (40 / 100))"
proof -
  let ?env = "example_env [irradiance_spec] example_forecasts"
  let ?ratio = "Finite False (3602879701896397 / 9007199254740992)"
  obtain r s' where run:
    "process_sensor_specs ?env amsterdam 1 1700000100 example_forecast 1700000000
       irradiance_spec example_state = (r, s')"
    by (cases "process_sensor_specs ?env amsterdam 1 1700000100 example_forecast 1700000000
       irradiance_spec example_state")
  define s1 where "s1 = snd (get_weather_sensor ?env irradiance_spec amsterdam 1 example_state)"
  have found:
    "get_weather_sensor ?env irradiance_spec amsterdam 1 example_state
       = (Inr (Some (example_sensor amsterdam ''irradiance'')), s1)"
    unfolding s1_def
    by (simp add: get_weather_sensor_def check_resolution_def example_env_def example_sensor_def
        example_state_def irradiance_spec_def emit_def Let_def)
  have s1: "db_forecasts s1 = []" "world s1 = ()"
    unfolding s1_def
    by (simp_all add: get_weather_sensor_def check_resolution_def example_env_def
        example_sensor_def example_state_def irradiance_spec_def emit_def Let_def)
  have "r = Inr () \<and>
     map_of (db_forecasts s') (example_sensor amsterdam ''irradiance'') =
       Some (batch_of (example_sensor amsterdam ''irradiance'') (db_forecasts s1) @
         [\<lparr>event_start = 1700000000, belief_time = 1700000100, event_value = JFloat ?ratio,
           belief_sensor = example_sensor amsterdam ''irradiance'',
           source = fst (get_or_create_owm_data_source_for_derived_data ?env (world s1))\<rparr>]) \<and>
     (\<forall>i. PyInt 40 = PyInt i \<and> \<bar>i\<bar> < 2 ^ 53 \<longrightarrow>
          ?ratio = round_to_double (i < 0) (of_int \<bar>i\<bar> / 100)) \<and>
     (\<forall>sign a. PyInt 40 = PyFloat (Finite sign a) \<longrightarrow>
          ?ratio = round_to_double sign (a / 100))"
  proof (rule irradiance_belief [OF _ _ _ found _ _ run])
    show "fm_sensor_name irradiance_spec = ''irradiance''"
      by (simp add: irradiance_spec_def)
    show "map_of example_forecast (weather_sensor_name irradiance_spec) = Some (JInt 40)"
      by (simp add: irradiance_spec_def example_forecast_def)
    show "as_number (JInt 40) = Some (PyInt 40)"
      by simp
    show "truediv_float (PyInt 40) 100 = Inr ?ratio"
      by (rule cloud_ratios)
    show "compute_irradiance ?env (fst amsterdam) (snd amsterdam) 1700000000 ?ratio
        = Inr (JFloat ?ratio)"
      by (simp add: example_env_def)
  qed
  then have res: "r = Inr ()"
     "map_of (db_forecasts s') (example_sensor amsterdam ''irradiance'') =
       Some (batch_of (example_sensor amsterdam ''irradiance'') (db_forecasts s1) @
         [\<lparr>event_start = 1700000000, belief_time = 1700000100, event_value = JFloat ?ratio,
           belief_sensor = example_sensor amsterdam ''irradiance'',
           source = fst (get_or_create_owm_data_source_for_derived_data ?env (world s1))\<rparr>])"
     "\<forall>i. PyInt 40 = PyInt i \<and> \<bar>i\<bar> < 2 ^ 53 \<longrightarrow>
          ?ratio = round_to_double (i < 0) (of_int \<bar>i\<bar> / 100)"
    by blast+
  from res(3) [THEN spec, of 40] have "?ratio = round_to_double False (40 / 100)"
    by simp
  then have "truediv_float (PyInt 40) 100 = Inr (round_to_double False (40 / 100))"
    by (simp only: cloud_ratios)
  with res(1,2) show ?thesis
    using run by (simp add: s1 batch_of_def example_env_def)
qed



text \<open>
  C1, on a run over two locations. The run ends normally and resolves a sensor at each
  location, but the loop that saves runs once, after the loop over the locations, on the
  batches of the last location: the two beliefs of the sensor at the first location are
  never passed to \<^verbatim>\<open>save_to_db\<close>.
\<close>

theorem only_last_location_saved:
  "fst (example_run [temperature_spec] [amsterdam, paris]) = Inr () \<and>
   find_count amsterdam ''temperature''
     (rlog (snd (example_run [temperature_spec] [amsterdam, paris]))) = 1 \<and>
   sensor_id (example_sensor amsterdam ''temperature'') = 111 \<and>
   saved_sensor_ids (rlog (snd (example_run [temperature_spec] [amsterdam, paris])))
     = [211, 211]"
  by (simp add: run_defs trace_defs)

text \<open>
  C5, on a table that lists irradiance before temperature. Within a forecast hour the
  variable \<^verbatim>\<open>data_source\<close> keeps the derived source that the irradiance entry assigned,
  so the temperature beliefs of that hour are saved with the derived source.
\<close>

theorem source_leaks_after_irradiance:
  "saved_sources (rlog (snd (example_run [irradiance_spec, temperature_spec] [amsterdam]))) =
     [(''irradiance'', derived_source), (''irradiance'', derived_source),
      (''temperature'', derived_source), (''temperature'', derived_source)] \<and>
   saved_sources (rlog (snd (example_run [temperature_spec, irradiance_spec] [amsterdam]))) =
     [(''temperature'', primary_source), (''temperature'', primary_source),
      (''irradiance'', derived_source), (''irradiance'', derived_source)]"
  by (simp add: run_defs trace_defs cloud_ratios)

subsection \<open>What each step adds to the trace\<close>

lemma for_each_rule2:
  assumes "P s"
    and "\<And>x s. x \<in> set xs \<Longrightarrow> P s \<Longrightarrow>
           Q (snd (body x s)) \<and> (\<forall>u. fst (body x s) = Inr u \<longrightarrow> P (snd (body x s)))"
    and "\<And>s. P s \<Longrightarrow> Q s"
  shows "Q (snd (for_each body xs s)) \<and>
         (\<forall>u. fst (for_each body xs s) = Inr u \<longrightarrow> P (snd (for_each body xs s)))"
proof -
  have "case for_each body xs s of (Inl e, s') \<Rightarrow> Q s' | (Inr u, s') \<Rightarrow> P s'"
  proof (rule for_each_rule [where P = P and Q = "\<lambda>e. Q"])
    show "P s" by fact
  next
    fix x t assume "x \<in> set xs" "P t"
    then have "Q (snd (body x t)) \<and> (\<forall>u. fst (body x t) = Inr u \<longrightarrow> P (snd (body x t)))"
      by (rule assms(2))
    then show "case body x t of (Inl e, s') \<Rightarrow> Q s' | (Inr u, s') \<Rightarrow> P s'"
      by (auto split: prod.splits sum.splits)
  qed
  then show ?thesis
    using assms(3) by (auto split: prod.splits sum.splits)
qed

lemma plain_find_count:
  "list_all is_plain evs \<Longrightarrow> find_count l n (lg @ evs) = find_count l n lg"
proof (induction evs)
  case Nil
  then show ?case by simp
next
  case (Cons e evs)
  then show ?case by (cases e) (simp_all add: find_count_def)
qed



lemma get_weather_sensor_effect:
  assumes "get_weather_sensor env sp l m s = (g, s1)"
  shows "(\<exists>ws. weather_sensors s (fm_sensor_name sp) = Some ws \<and> g = check_resolution sp ws \<and>
               log s1 = log s @ [CheckResolution sp ws] \<and>
               weather_sensors s1 = weather_sensors s) \<or>
         (weather_sensors s (fm_sensor_name sp) = None \<and>
          (\<exists>e. g = Inl e \<and> log s1 = log s @ [FindSensor l m (fm_sensor_name sp) (Inl e)] \<and>
               weather_sensors s1 = weather_sensors s)) \<or>
         (weather_sensors s (fm_sensor_name sp) = None \<and>
          (\<exists>ws. g = check_resolution sp ws \<and>
               log s1 = log s @ [FindSensor l m (fm_sensor_name sp) (Inr ws),
                                 CheckResolution sp ws] \<and>
               weather_sensors s1 = (weather_sensors s)(fm_sensor_name sp \<mapsto> ws)))"
  using assms
  by (auto simp: get_weather_sensor_def emit_def Let_def
      split: option.splits prod.splits sum.splits)

lemma store_belief_effect:
  "log (snd (store_belief now t k v s)) = log s \<and>
   weather_sensors (snd (store_belief now t k v s)) = weather_sensors s"
  by (simp add: store_belief_def split: option.splits)

lemma process_sensor_specs_effect:
  assumes "process_sensor_specs env l m now fc t sp s = (r, s')"
  shows "(r = Inr () \<and> weather_sensors s' = weather_sensors s \<and>
          (\<exists>evs. log s' = log s @ evs \<and> list_all is_plain evs)) \<or>
         (\<exists>g s1 evs. get_weather_sensor env sp l m s = (g, s1) \<and>
            weather_sensors s' = weather_sensors s1 \<and>
            log s' = log s1 @ evs \<and> list_all is_plain evs \<and>
            (\<forall>u. r = Inr u \<longrightarrow> (\<exists>x. g = Inr x)))"
proof (cases "map_of fc (weather_sensor_name sp)")
  case None
  with assms have "r = Inr ()" "weather_sensors s' = weather_sensors s"
    "log s' = log s @ [Echo (NoLabel (weather_sensor_name sp) t),
                       LoggerWarning (NoLabel (weather_sensor_name sp) t)]"
    by (auto simp: process_sensor_specs_def Let_def emit_def)
  then show ?thesis by simp
next
  case (Some v)
  obtain g s1 where g: "get_weather_sensor env sp l m s = (g, s1)"
    by (cases "get_weather_sensor env sp l m s")
  have "weather_sensors s' = weather_sensors s1 \<and>
        (\<exists>evs. log s' = log s1 @ evs \<and> list_all is_plain evs) \<and>
        (\<forall>u. r = Inr u \<longrightarrow> (\<exists>x. g = Inr x))"
  proof (cases g)
    case (Inl e)
    with assms Some g show ?thesis
      by (auto simp: process_sensor_specs_def Let_def)
  next
    case (Inr found)
    show ?thesis
    proof (cases found)
      case None
      with assms Some g Inr show ?thesis
        by (auto simp: process_sensor_specs_def Let_def)
    next
      case (Some ws)
      define s3 where "s3 = (emit (Echo (FoundSensor (sensor_name ws))) s1)
          \<lparr>db_forecasts := db_setdefault ws (db_forecasts (emit (Echo (FoundSensor (sensor_name ws))) s1))\<rparr>"
      have s3: "log s3 = log s1 @ [Echo (FoundSensor (sensor_name ws))]"
        "weather_sensors s3 = weather_sensors s1"
        by (simp_all add: s3_def emit_def)
      have s4: "log (snd (store_belief now t ws x (s3\<lparr>world := w, data_source := d\<rparr>))) = log s3"
        "weather_sensors (snd (store_belief now t ws x (s3\<lparr>world := w, data_source := d\<rparr>)))
           = weather_sensors s3" for x w d
        using store_belief_effect [of now t ws x "s3\<lparr>world := w, data_source := d\<rparr>"]
        by simp_all
      have s5: "log (snd (store_belief now t ws x s3)) = log s3"
        "weather_sensors (snd (store_belief now t ws x s3)) = weather_sensors s3" for x
        using store_belief_effect [of now t ws x s3] by simp_all
      have "log s' = log s3 \<and> weather_sensors s' = weather_sensors s3"
        using assms \<open>map_of fc (weather_sensor_name sp) = Some v\<close> g Inr Some
        by (auto simp: process_sensor_specs_def Let_def s3_def [symmetric] s4 s5
            split: option.splits sum.splits prod.splits if_splits
            dest!: arg_cong [where f = snd])
      then show ?thesis
        using Inr by (simp add: s3)
    qed
  qed
  then obtain evs where e: "weather_sensors s' = weather_sensors s1"
    "log s' = log s1 @ evs" "list_all is_plain evs" "\<forall>u. r = Inr u \<longrightarrow> (\<exists>x. g = Inr x)"
    by blast
  show ?thesis
    by (rule disjI2, rule exI [of _ g], rule exI [of _ s1], rule exI [of _ evs])
      (simp add: g e)
qed

subsection \<open>Invariants of the trace and the cache\<close>

text \<open>
  The loops of one location change the trace and the cache only through
  \<^verbatim>\<open>get_weather_sensor\<close> and through plain events. So a property of the trace and the
  cache that plain events keep, and that the resolver establishes, holds after the loops.
\<close>

lemma process_sensor_specs_rule:
  fixes P Q :: "'w state \<Rightarrow> bool"
  assumes plainP: "\<And>s s' evs. P s \<Longrightarrow> weather_sensors s' = weather_sensors s \<Longrightarrow>
            log s' = log s @ evs \<Longrightarrow> list_all is_plain evs \<Longrightarrow> P s'"
    and plainQ: "\<And>s s' evs. Q s \<Longrightarrow> weather_sensors s' = weather_sensors s \<Longrightarrow>
            log s' = log s @ evs \<Longrightarrow> list_all is_plain evs \<Longrightarrow> Q s'"
    and PQ: "\<And>s. P s \<Longrightarrow> Q s"
    and get: "\<And>s g s1. P s \<Longrightarrow> get_weather_sensor env sp l m s = (g, s1) \<Longrightarrow>
            Q s1 \<and> (\<forall>x. g = Inr x \<longrightarrow> P s1)"
    and "P s"
  shows "Q (snd (process_sensor_specs env l m now fc t sp s)) \<and>
         (\<forall>u. fst (process_sensor_specs env l m now fc t sp s) = Inr u \<longrightarrow>
              P (snd (process_sensor_specs env l m now fc t sp s)))"
proof -
  obtain r s' where run: "process_sensor_specs env l m now fc t sp s = (r, s')"
    by (cases "process_sensor_specs env l m now fc t sp s")
  from process_sensor_specs_effect [OF run]
  have "Q s' \<and> (\<forall>u. r = Inr u \<longrightarrow> P s')"
  proof (elim disjE exE conjE)
    fix evs
    assume "weather_sensors s' = weather_sensors s" "log s' = log s @ evs" "list_all is_plain evs"
    with \<open>P s\<close> have "P s'" by (rule plainP)
    then show ?thesis by (simp add: PQ)
  next
    fix g s1 evs
    assume g: "get_weather_sensor env sp l m s = (g, s1)"
      and eff: "weather_sensors s' = weather_sensors s1" "log s' = log s1 @ evs"
        "list_all is_plain evs"
      and ok: "\<forall>u. r = Inr u \<longrightarrow> (\<exists>x. g = Inr x)"
    from get [OF \<open>P s\<close> g] have q: "Q s1" and p: "\<forall>x. g = Inr x \<longrightarrow> P s1"
      by simp_all
    from q eff have "Q s'" by (rule plainQ)
    moreover have "P s'" if "r = Inr u" for u
    proof -
      from that ok obtain x where "g = Inr x" by blast
      with p have "P s1" by simp
      then show ?thesis using eff by (rule plainP)
    qed
    ultimately show ?thesis by simp
  qed
  with run show ?thesis by simp
qed

lemma process_forecast_rule:
  fixes P Q :: "'w state \<Rightarrow> bool"
  assumes plainP: "\<And>s s' evs. P s \<Longrightarrow> weather_sensors s' = weather_sensors s \<Longrightarrow>
            log s' = log s @ evs \<Longrightarrow> list_all is_plain evs \<Longrightarrow> P s'"
    and plainQ: "\<And>s s' evs. Q s \<Longrightarrow> weather_sensors s' = weather_sensors s \<Longrightarrow>
            log s' = log s @ evs \<Longrightarrow> list_all is_plain evs \<Longrightarrow> Q s'"
    and PQ: "\<And>s. P s \<Longrightarrow> Q s"
    and get: "\<And>sp s g s1. sp \<in> set (mapping env) \<Longrightarrow> P s \<Longrightarrow>
            get_weather_sensor env sp l m s = (g, s1) \<Longrightarrow> Q s1 \<and> (\<forall>x. g = Inr x \<longrightarrow> P s1)"
    and "P s"
  shows "Q (snd (process_forecast env l m now fc s)) \<and>
         (\<forall>u. fst (process_forecast env l m now fc s) = Inr u \<longrightarrow>
              P (snd (process_forecast env l m now fc s)))"
proof (cases "ebind (case map_of fc ''dt'' of None \<Rightarrow> Inl (KeyError ''dt'') | Some v \<Rightarrow> Inr v)
             (fromtimestamp env)")
  case (Inl e)
  with \<open>P s\<close> show ?thesis by (simp add: process_forecast_def PQ)
next
  case (Inr t)
  obtain src w where src:
    "get_or_create_owm_data_source env (world (emit (Echo (ProcessingForecast t)) s)) = (src, w)"
    by (cases "get_or_create_owm_data_source env (world (emit (Echo (ProcessingForecast t)) s))")
  define s2 where
    "s2 = (emit (Echo (ProcessingForecast t)) s)\<lparr>world := w, data_source := Some src\<rparr>"
  have "P s2"
    by (rule plainP [OF \<open>P s\<close>, where evs = "[Echo (ProcessingForecast t)]"])
      (simp_all add: s2_def emit_def)
  then have "Q (snd (for_each (process_sensor_specs env l m now fc t) (mapping env) s2)) \<and>
     (\<forall>u. fst (for_each (process_sensor_specs env l m now fc t) (mapping env) s2) = Inr u \<longrightarrow>
          P (snd (for_each (process_sensor_specs env l m now fc t) (mapping env) s2)))"
  proof (rule for_each_rule2)
    fix sp s assume sp: "sp \<in> set (mapping env)" and ps: "P s"
    show "Q (snd (process_sensor_specs env l m now fc t sp s)) \<and>
         (\<forall>u. fst (process_sensor_specs env l m now fc t sp s) = Inr u \<longrightarrow>
              P (snd (process_sensor_specs env l m now fc t sp s)))"
      using plainP plainQ PQ get [OF sp] ps
      by (rule process_sensor_specs_rule [where P = P and Q = Q])
  qed (rule PQ)
  then show ?thesis
    by (simp add: process_forecast_def Inr Let_def src s2_def)
qed

lemma call_api_effect:
  assumes "call_api env key l s = (r, s1)"
  shows "weather_sensors s1 = weather_sensors s \<and>
         (\<exists>evs. log s1 = log s @ evs \<and> list_all is_plain evs)"
  using assms
  by (auto simp: call_api_def emit_def Let_def split: if_splits prod.splits)

lemma process_location_rule:
  fixes P Q :: "'w state \<Rightarrow> bool"
  assumes plainP: "\<And>s s' evs. P s \<Longrightarrow> weather_sensors s' = weather_sensors s \<Longrightarrow>
            log s' = log s @ evs \<Longrightarrow> list_all is_plain evs \<Longrightarrow> P s'"
    and plainQ: "\<And>s s' evs. Q s \<Longrightarrow> weather_sensors s' = weather_sensors s \<Longrightarrow>
            log s' = log s @ evs \<Longrightarrow> list_all is_plain evs \<Longrightarrow> Q s'"
    and PQ: "\<And>s. P s \<Longrightarrow> Q s"
    and get: "\<And>sp s g s1. sp \<in> set (mapping env) \<Longrightarrow> P s \<Longrightarrow>
            get_weather_sensor env sp l m s = (g, s1) \<Longrightarrow> Q s1 \<and> (\<forall>x. g = Inr x \<longrightarrow> P s1)"
    and init: "\<And>s. log s = rlog rs \<Longrightarrow> weather_sensors s = Map.empty \<Longrightarrow> P s"
  shows "\<exists>s. rlog (snd (process_location env key m l rs)) = log s \<and> Q s \<and>
           (\<forall>u. fst (process_location env key m l rs) = Inr u \<longrightarrow> P s)"
proof -
  define s0 where "s0 = \<lparr>world = rworld rs, log = rlog rs @ [Echo (LocationLine l)],
     weather_sensors = Map.empty, db_forecasts = [], data_source = None\<rparr>"
  have w0: "world s0 = rworld rs"
    by (simp add: s0_def)
  obtain now w where now: "server_now env (rworld rs) = (now, w)"
    by (cases "server_now env (rworld rs)")
  obtain c s2 where c: "call_api env key l (s0\<lparr>world := w\<rparr>) = (c, s2)"
    by (cases "call_api env key l (s0\<lparr>world := w\<rparr>)")
  have "P (s0\<lparr>log := rlog rs\<rparr>)"
    by (rule init) (simp_all add: s0_def)
  then have "P (s0\<lparr>world := w\<rparr>)"
    by (rule plainP [where evs = "[Echo (LocationLine l)]"]) (simp_all add: s0_def)
  moreover from call_api_effect [OF c] obtain evs where
    "weather_sensors s2 = weather_sensors (s0\<lparr>world := w\<rparr>)"
    "log s2 = log (s0\<lparr>world := w\<rparr>) @ evs" "list_all is_plain evs"
    by blast
  ultimately have s2: "P s2"
    by (rule plainP)
  show ?thesis
  proof (cases c)
    case (Inl e)
    have "P (emit (CallApi l (Inl e)) s2)"
      by (rule plainP [OF s2, where evs = "[CallApi l (Inl e)]"]) (simp_all add: emit_def)
    then have "Q (emit (CallApi l (Inl e)) s2)"
      by (rule PQ)
    moreover have "process_location env key m l rs
        = (Inl e, leave_location (emit (CallApi l (Inl e)) s2))"
      using now c Inl by (simp add: process_location_def s0_def [symmetric] w0)
    ultimately show ?thesis
      by (intro exI [of _ "emit (CallApi l (Inl e)) s2"]) (simp add: leave_location_def)
  next
    case (Inr tf)
    obtain t fcs where tf: "tf = (t, fcs)" by (cases tf)
    define s4 where "s4 = emit (Echo (CalledApi now))
       (if 600 < \<bar>now - t\<bar>
        then emit (Echo (ClockDifference (now - t))) (emit (CallApi l (Inr (t, fcs))) s2)
        else emit (CallApi l (Inr (t, fcs))) s2)"
    have "weather_sensors s4 = weather_sensors s2 \<and>
          (\<exists>evs. log s4 = log s2 @ evs \<and> list_all is_plain evs)"
      by (simp add: s4_def emit_def)
    then obtain evs4 where "weather_sensors s4 = weather_sensors s2"
      "log s4 = log s2 @ evs4" "list_all is_plain evs4"
      by blast
    with s2 have "P s4"
      by (rule plainP)
    then have loop: "Q (snd (for_each (process_forecast env l m now) fcs s4)) \<and>
       (\<forall>u. fst (for_each (process_forecast env l m now) fcs s4) = Inr u \<longrightarrow>
            P (snd (for_each (process_forecast env l m now) fcs s4)))"
    proof (rule for_each_rule2)
      fix fc s assume ps: "P s"
      show "Q (snd (process_forecast env l m now fc s)) \<and>
         (\<forall>u. fst (process_forecast env l m now fc s) = Inr u \<longrightarrow>
              P (snd (process_forecast env l m now fc s)))"
        using plainP plainQ PQ get ps
        by (rule process_forecast_rule [where P = P and Q = Q])
    qed (rule PQ)
    have "process_location env key m l rs =
        (fst (for_each (process_forecast env l m now) fcs s4),
         leave_location (snd (for_each (process_forecast env l m now) fcs s4)))"
      using now c Inr tf
      by (simp add: process_location_def s0_def [symmetric] w0 Let_def s4_def
          split: prod.splits)
    with loop show ?thesis
      by (intro exI [of _ "snd (for_each (process_forecast env l m now) fcs s4)"])
        (simp add: leave_location_def)
  qed
qed

subsection \<open>Calls of the registry\<close>

lemma find_count_snoc:
  "find_count l' n (lg @ [FindSensor l m n0 r]) =
     find_count l' n lg + (if l' = l \<and> n = n0 then 1 else 0)"
  by (auto simp: find_count_def)

lemma find_count_check:
  "find_count l' n (lg @ [CheckResolution sp ws]) = find_count l' n lg"
  "find_count l' n (lg @ [e, CheckResolution sp ws]) = find_count l' n (lg @ [e])"
  by (simp_all add: find_count_def)

lemma bound_weaker:
  "a \<le> b + (if c \<and> d then 1 else 0) \<Longrightarrow> (a::nat) \<le> b + (if c then 1 else 0)"
  by (cases c; cases d; simp)

lemma get_weather_sensor_calls:
  assumes P: "\<forall>l' n. find_count l' n (log s) \<le>
             find_count l' n base + (if l' = l \<and> weather_sensors s n \<noteq> None then 1 else 0)"
    and g: "get_weather_sensor env sp l m s = (g, s1)"
  shows "(\<forall>l' n. find_count l' n (log s1) \<le> find_count l' n base + (if l' = l then 1 else 0)) \<and>
         (\<forall>x. g = Inr x \<longrightarrow>
            (\<forall>l' n. find_count l' n (log s1) \<le>
               find_count l' n base + (if l' = l \<and> weather_sensors s1 n \<noteq> None then 1 else 0)))"
proof -
  have inst: "find_count l' n (log s) \<le>
      find_count l' n base + (if l' = l \<and> weather_sensors s n \<noteq> None then 1 else 0)" for l' n
    using P by blast
  have weaker: "find_count l' n (log s) \<le> find_count l' n base + (if l' = l then 1 else 0)"
    for l' n
    using inst [of l' n] by (rule bound_weaker)
  from get_weather_sensor_effect [OF g] show ?thesis
  proof (elim disjE conjE exE)
    fix ws
    assume "log s1 = log s @ [CheckResolution sp ws]" "weather_sensors s1 = weather_sensors s"
    then have "find_count l' n (log s1) = find_count l' n (log s)"
      "weather_sensors s1 = weather_sensors s" for l' n
      by (simp_all add: find_count_check)
    with P weaker show ?thesis by simp
  next
    fix e
    assume none: "weather_sensors s (fm_sensor_name sp) = None" and "g = Inl e"
      and lg: "log s1 = log s @ [FindSensor l m (fm_sensor_name sp) (Inl e)]"
    have "find_count l' n (log s1) \<le> find_count l' n base + (if l' = l then 1 else 0)" for l' n
    proof (cases "l' = l \<and> n = fm_sensor_name sp")
      case True
      with inst [of l' n] none show ?thesis
        by (simp add: lg find_count_snoc)
    next
      case False
      then have "find_count l' n (log s1) = find_count l' n (log s)"
        by (auto simp: lg find_count_def)
      with weaker [of l' n] show ?thesis
        by simp
    qed
    with \<open>g = Inl e\<close> show ?thesis by simp
  next
    fix ws
    assume none: "weather_sensors s (fm_sensor_name sp) = None"
      and lg0: "log s1 = log s @ [FindSensor l m (fm_sensor_name sp) (Inr ws),
                                  CheckResolution sp ws]"
      and cache: "weather_sensors s1 = (weather_sensors s)(fm_sensor_name sp \<mapsto> ws)"
    have lg: "find_count l' n (log s1) =
        find_count l' n (log s @ [FindSensor l m (fm_sensor_name sp) (Inr ws)])" for l' n
      by (simp only: lg0 find_count_check)
    have strong: "find_count l' n (log s1) \<le>
          find_count l' n base + (if l' = l \<and> weather_sensors s1 n \<noteq> None then 1 else 0)" for l' n
    proof (cases "n = fm_sensor_name sp")
      case True
      show ?thesis
      proof (cases "l' = l")
        case True
        with inst [of l' n] none \<open>n = fm_sensor_name sp\<close> show ?thesis
          by (simp add: lg cache find_count_snoc)
      next
        case False
        with inst [of l' n] show ?thesis
          by (simp add: lg cache find_count_snoc)
      qed
    next
      case False
      with inst [of l' n] show ?thesis
        by (simp add: lg cache find_count_snoc)
    qed
    have "find_count l' n (log s1) \<le> find_count l' n base + (if l' = l then 1 else 0)" for l' n
      using strong [of l' n] by (rule bound_weaker)
    with strong show ?thesis by blast
  qed
qed

lemma location_calls:
  "find_count l' n (rlog (snd (process_location env key m l rs))) \<le>
     find_count l' n (rlog rs) + (if l' = l then 1 else 0)"
proof -
  let ?P = "\<lambda>s :: 'a state. \<forall>l' n. find_count l' n (log s) \<le>
     find_count l' n (rlog rs) + (if l' = l \<and> weather_sensors s n \<noteq> None then 1 else 0)"
  let ?Q = "\<lambda>s :: 'a state. \<forall>l' n. find_count l' n (log s) \<le>
     find_count l' n (rlog rs) + (if l' = l then 1 else 0)"
  have "\<exists>s. rlog (snd (process_location env key m l rs)) = log s \<and> ?Q s \<and>
           (\<forall>u. fst (process_location env key m l rs) = Inr u \<longrightarrow> ?P s)"
  proof (rule process_location_rule [where P = ?P and Q = ?Q])
    fix s s' :: "'a state" and evs
    assume "?P s" "weather_sensors s' = weather_sensors s" "log s' = log s @ evs"
      "list_all is_plain evs"
    then show "?P s'" by (simp add: plain_find_count)
  next
    fix s s' :: "'a state" and evs
    assume "?Q s" "weather_sensors s' = weather_sensors s" "log s' = log s @ evs"
      "list_all is_plain evs"
    then show "?Q s'" by (simp add: plain_find_count)
  next
    fix s :: "'a state"
    assume p: "?P s"
    show "?Q s"
    proof (intro allI)
      fix l' n
      from p [THEN spec, of l', THEN spec, of n]
      show "find_count l' n (log s) \<le> find_count l' n (rlog rs) + (if l' = l then 1 else 0)"
        by (rule bound_weaker)
    qed
  next
    fix sp g and s s1 :: "'a state"
    assume "?P s" "get_weather_sensor env sp l m s = (g, s1)"
    then show "?Q s1 \<and> (\<forall>x. g = Inr x \<longrightarrow> ?P s1)"
      by (rule get_weather_sensor_calls)
  next
    fix s :: "'a state"
    assume "log s = rlog rs" "weather_sensors s = Map.empty"
    then show "?P s" by simp
  qed
  then show ?thesis
  proof (elim exE conjE)
    fix s :: "'a state"
    assume a: "rlog (snd (process_location env key m l rs)) = log s" and q: "?Q s"
    from q [THEN spec, of l', THEN spec, of n] show ?thesis
      by (simp only: a)
  qed
qed

lemma locations_loop_calls:
  "find_count l n (rlog (snd (for_each (process_location env key m) locations rs))) \<le>
     find_count l n (rlog rs) + count_list locations l"
proof (induction locations arbitrary: rs)
  case Nil
  then show ?case by simp
next
  case (Cons x xs)
  obtain r rs1 where step: "process_location env key m x rs = (r, rs1)"
    by (cases "process_location env key m x rs")
  from location_calls [of l n env key m x rs]
  have one: "find_count l n (rlog rs1) \<le> find_count l n (rlog rs) + (if l = x then 1 else 0)"
    by (simp add: step)
  show ?case
  proof (cases r)
    case (Inl e)
    with step one show ?thesis by (simp split: if_splits)
  next
    case (Inr u)
    from Cons.IH [of rs1] one step Inr show ?thesis
      by (simp split: if_splits)
  qed
qed

lemma save_sensor_forecasts_calls:
  "find_count l n (rlog (snd (save_sensor_forecasts env kv rs))) = find_count l n (rlog rs)"
  by (simp add: save_sensor_forecasts_def remit_def Let_def find_count_def
      split: prod.splits sum.splits)

lemma run_calls:
  "find_count l n (rlog (snd (save_forecasts_in_db env api_key locations w))) \<le>
     count_list locations l"
proof -
  define rs0 where "rs0 = \<lparr>rworld = w,
     rlog = [Echo GettingForecasts, Echo LatLonHeader, Echo Separator], rdb = None\<rparr>"
  define loop where
    "loop = for_each (process_location env api_key (max_degree_difference env)) locations rs0"
  have "find_count l n (rlog (snd loop)) \<le> find_count l n (rlog rs0) + count_list locations l"
    unfolding loop_def by (rule locations_loop_calls)
  then have loop: "find_count l n (rlog (snd loop)) \<le> count_list locations l"
    by (simp add: rs0_def find_count_def)
  have save: "find_count l n (rlog (snd (for_each (save_sensor_forecasts env) db (snd loop))))
      \<le> count_list locations l" for db
    using loop
    by (rule for_each_invariant) (simp add: save_sensor_forecasts_calls)
  show ?thesis
  proof (cases loop)
    case (Pair r1 rs1)
    with loop save show ?thesis
      by (auto simp: save_forecasts_in_db_def Let_def rs0_def [symmetric] loop_def [symmetric]
          split: sum.splits option.splits)
  qed
qed

lemma distinct_count_list: "distinct xs \<Longrightarrow> count_list xs x \<le> 1"
  by (induction xs) (auto simp: count_list_0_iff)

text \<open>
  C8, as amended. In a run over a list of locations without repetition, the registry is
  asked at most once for every pair of a sensor name and a location, however many forecast
  hours and table entries of that name there are, and whether the run ends normally or
  with an exception. (The cache is created anew in each iteration of the loop over the
  locations: a location listed twice is resolved twice.)
\<close>

theorem resolver_called_once:
  assumes "distinct locations"
  shows "find_count l n (rlog (snd (save_forecasts_in_db env api_key locations w))) \<le> 1"
  using run_calls [of l n env api_key locations w] distinct_count_list [OF assms, of l]
  by simp

theorem resolver_called_once_witness:
  "distinct [amsterdam, paris] \<and>
   find_count amsterdam ''temperature''
     (rlog (snd (example_run [temperature_spec, irradiance_spec] [amsterdam, paris]))) \<le> 1"
proof -
  have d: "distinct [amsterdam, paris]"
    by (simp add: amsterdam_def paris_def)
  from resolver_called_once [OF d, where l = amsterdam and n = "''temperature''"
      and env = "example_env [temperature_spec, irradiance_spec] example_forecasts"
      and api_key = "''key''" and w = "()"]
  have "find_count amsterdam ''temperature''
     (rlog (snd (example_run [temperature_spec, irradiance_spec] [amsterdam, paris]))) \<le> 1"
    by (simp add: example_run_def)
  with d show ?thesis by blast
qed

theorem resolver_called_once_counterexample:
  "find_count amsterdam ''temperature''
     (rlog (snd (example_run [temperature_spec] [amsterdam, amsterdam]))) = 2"
  by (simp add: run_defs trace_defs)

subsection \<open>Resolutions\<close>







end
